theory Spec2Isabelle
  imports Main "HOL-Library.Word" "HOL-Library.AList"
begin

section \<open>The video-call page of MedConnect (src/pages/Videocall.tsx)\<close>

text \<open>
  The component \<^verbatim>\<open>VideoCall\<close> is a React function component. Its state variables, its
  refs, the variables of the closure of its main effect and the objects of the libraries it
  drives (socket.io sockets, PeerJS peers and calls, media streams, browser timers) are the
  fields of one record \<open>vc\<close>. Every closure of the source (event handler, timer callback,
  effect body, effect cleanup) is a function from \<open>vc\<close> to \<open>vc\<close>. What a closure does to
  the outside (emitting on a socket, \<^verbatim>\<open>alert\<close>, \<^verbatim>\<open>navigate\<close>, \<^verbatim>\<open>fetch\<close>,
  \<^verbatim>\<open>getUserMedia\<close>) is appended to a log field. When React re-renders and re-runs an
  effect is not modelled: effect bodies and cleanups are functions of their own, and a closure
  reads the state variables as they are when it runs, except the two that the handlers of the
  main effect captured when the effect ran (\<open>micOn_main\<close>, \<open>showChat_main\<close>).
\<close>

subsection \<open>JavaScript strings\<close>

text \<open>A JavaScript string is a sequence of UTF-16 code units.\<close>

type_synonym jsstring = "16 word list"

definition ascii :: "string \<Rightarrow> jsstring" where
  "ascii cs = map (\<lambda>c. word_of_nat (of_char c)) cs"

text \<open>
  \<^verbatim>\<open>String.prototype.trim\<close> removes white space and line terminators from both ends:
  TAB, LF, VT, FF, CR, SPACE, NBSP, U+1680, U+2000 to U+200A, U+2028, U+2029, U+202F, U+205F,
  U+3000 and U+FEFF.
\<close>

definition is_js_space :: "16 word \<Rightarrow> bool" where
  "is_js_space c \<longleftrightarrow>
     c \<in> {0x9, 0xA, 0xB, 0xC, 0xD, 0x20, 0xA0, 0x1680, 0x2028, 0x2029, 0x202F, 0x205F,
          0x3000, 0xFEFF}
     \<or> (0x2000 \<le> c \<and> c \<le> 0x200A)"

definition trim :: "jsstring \<Rightarrow> jsstring" where
  "trim s = rev (dropWhile is_js_space (rev (dropWhile is_js_space s)))"

text \<open>\<^verbatim>\<open>a.includes(b)\<close>: \<open>b\<close> occurs in \<open>a\<close> as a contiguous run.\<close>

fun starts_with :: "jsstring \<Rightarrow> jsstring \<Rightarrow> bool" where
  "starts_with s [] = True"
| "starts_with [] (p # ps) = False"
| "starts_with (c # cs) (p # ps) = (c = p \<and> starts_with cs ps)"

fun str_includes :: "jsstring \<Rightarrow> jsstring \<Rightarrow> bool" where
  "str_includes [] p = (p = [])"
| "str_includes (c # cs) p = (starts_with (c # cs) p \<or> str_includes cs p)"

text \<open>The decimal digits of a number, as a template literal prints \<^verbatim>\<open>Date.now()\<close>.\<close>

function decimal :: "nat \<Rightarrow> jsstring" where
  "decimal n =
     (if n < 10 then [word_of_nat (48 + n)]
      else decimal (n div 10) @ [word_of_nat (48 + n mod 10)])"
  by pat_completeness auto
termination
  by (relation "measure (\<lambda>n. n)") auto

declare decimal.simps [simp del]

text \<open>A value of type \<^verbatim>\<open>string | null | undefined\<close> is truthy when it is a non-empty string.\<close>

fun truthy :: "jsstring option \<Rightarrow> bool" where
  "truthy None = False"
| "truthy (Some s) = (s \<noteq> [])"

text \<open>
  The literals of the source that are not ASCII: the name of the local participant (\<open>T\<close>
  followed by U+00FA) and the welcome message.
\<close>

definition str_Tu :: jsstring where
  "str_Tu = [0x54, 0xFA]"

definition str_Sistema :: jsstring where
  "str_Sistema = ascii ''Sistema''"

definition str_welcome :: jsstring where
  "str_welcome = ascii ''Bienvenido al chat de la reuni'' @ [0xF3] @ ascii ''n.''"

definition str_local :: jsstring where
  "str_local = ascii ''local''"

definition str_realtime :: jsstring where
  "str_realtime = ascii ''/realtime''"

definition str_NotAllowedError :: jsstring where
  "str_NotAllowedError = ascii ''NotAllowedError''"

text \<open>The text of the \<^verbatim>\<open>alert\<close> of \<^verbatim>\<open>requestMicrophonePermission\<close>.\<close>

definition str_mic_denied :: jsstring where
  "str_mic_denied =
     ascii ''Para usar la llamada de voz, necesitas permitir el acceso al micr'' @ [0xF3]
     @ ascii ''fono. Por favor:'' @ [0xA, 0xA] @ ascii ''1. Haz clic en el '' @ [0xED]
     @ ascii ''cono de candado en la barra de direcciones'' @ [0xA] @ ascii ''2. Busca ''
     @ [0x22] @ ascii ''Micr'' @ [0xF3] @ ascii ''fono'' @ [0x22, 0xA]
     @ ascii ''3. Selecciona '' @ [0x22] @ ascii ''Permitir'' @ [0x22, 0xA]
     @ ascii ''4. Recarga la p'' @ [0xE1] @ ascii ''gina''"

text \<open>The text of the \<^verbatim>\<open>alert\<close> of \<^verbatim>\<open>ensureMedia\<close>.\<close>

definition str_media_denied :: jsstring where
  "str_media_denied =
     ascii ''Permiso denegado para micr'' @ [0xF3] @ ascii ''fono/c'' @ [0xE1]
     @ ascii ''mara. Para usar la llamada de voz:'' @ [0xA, 0xA] @ ascii ''1. Haz clic en el ''
     @ [0xED] @ ascii ''cono de candado '' @ [0xD83D, 0xDD12, 0xA] @ ascii ''2. Busca ''
     @ [0x22] @ ascii ''Micr'' @ [0xF3] @ ascii ''fono'' @ [0x22] @ ascii '' o '' @ [0x22]
     @ ascii ''C'' @ [0xE1] @ ascii ''mara'' @ [0x22, 0xA] @ ascii ''3. Selecciona '' @ [0x22]
     @ ascii ''Permitir'' @ [0x22, 0xA] @ ascii ''4. Recarga la p'' @ [0xE1] @ ascii ''gina''"

subsection \<open>Data\<close>

record user =
  user_id :: jsstring
  user_name :: jsstring

record participant =
  pid :: jsstring
  pname :: jsstring
  isLocal :: bool

record message =
  msg_id :: nat
  author :: jsstring
  body :: jsstring

datatype peer_status = StConnecting | StConnected | StError

text \<open>The callbacks handed to \<^verbatim>\<open>setTimeout\<close>, one constructor for each call site.\<close>

datatype timer_task =
    ConnectionTimeout
  | NavigateRealtime
  | JoinVoiceRoomLater
  | ReconnectLater
  | CallPeersLater "jsstring list"
  | CallPeerLater jsstring

record timer =
  t_handle :: nat
  t_due :: nat
  t_task :: timer_task

datatype chat_emit =
    JoinMeeting "jsstring option" jsstring jsstring
  | SendMessage "jsstring option" jsstring jsstring
  | EndMeeting "jsstring option"

datatype voice_emit =
    JoinVoiceRoom "jsstring option" jsstring jsstring
  | LeaveVoiceRoom "jsstring option" jsstring

datatype http_call =
    GetMeeting "jsstring option" "jsstring option"
  | PutEndMeeting "jsstring option" "jsstring option"

text \<open>
  A PeerJS peer: the identity it was created with and the three flags of the library that
  the component reads or that decide what \<^verbatim>\<open>reconnect\<close> and \<^verbatim>\<open>call\<close> do.
\<close>

record peer_obj =
  peer_ident :: jsstring
  destroyed :: bool
  disconnected :: bool
  peer_opened :: bool

text \<open>A PeerJS media connection: the remote peer and whether \<^verbatim>\<open>close\<close> was called on it.\<close>

record call_obj =
  call_peer :: jsstring
  call_stream :: "nat option"
  call_closed :: bool

datatype track_kind = AudioTrack | VideoTrack

record track =
  kind :: track_kind
  enabled :: bool
  live :: bool

text \<open>What \<^verbatim>\<open>getUserMedia\<close> resolves to: a stream, or a rejection with the error's name.\<close>

datatype gum_outcome = Granted | Rejected jsstring

record vc =
  \<comment> \<open>what the router and the auth store supply\<close>
  meetingId :: "jsstring option"
  token :: "jsstring option"
  user :: "user option"
  \<comment> \<open>state variables; \<open>socket\<close> and \<open>voiceSocket\<close> say whether the variable is non-null\<close>
  socket :: bool
  isCreator :: bool
  meetingEnded :: bool
  voiceSocket :: bool
  peer :: "nat option"
  peerStatus :: peer_status
  participants :: "participant list"
  cameraOn :: bool
  micOn :: bool
  showChat :: bool
  chatInput :: jsstring
  hasNewMessages :: bool
  messages :: "message list"
  \<comment> \<open>refs\<close>
  peerCallsRef :: "(jsstring \<times> nat) list"
  mediaStreamRef :: "nat option"
  \<comment> \<open>variables of the main effect's closure; \<open>newPeer = None\<close> before the effect ran\<close>
  newPeer :: "nat option"
  connectionTimeout :: "nat option"
  hasJoined :: bool
  micOn_main :: bool
  showChat_main :: bool
  handleConnect_on :: bool
  \<comment> \<open>the browser and the libraries\<close>
  now :: nat
  timers :: "timer list"
  next_timer :: nat
  fired :: "timer list"
  chat_out :: "chat_emit list"
  voice_out :: "voice_emit list"
  chat_disconnected :: bool
  voice_disconnected :: bool
  peers :: "peer_obj list"
  calls :: "call_obj list"
  streams :: "track list list"
  gum_log :: "(bool \<times> bool) list"
  alerts :: "jsstring list"
  navigations :: "jsstring list"
  http_log :: "http_call list"

text \<open>
  Objects live in lists and a reference is an index; a new object goes to the end. A
  reference that points nowhere reads as \<open>None\<close>.
\<close>

definition at :: "'a list \<Rightarrow> nat \<Rightarrow> 'a option" where
  "at xs i = (if i < length xs then Some (xs ! i) else None)"

subsection \<open>The state of a freshly rendered component\<close>

text \<open>
  \<^verbatim>\<open>useState(() => [{ id: user?.id || 'local', name: ..., isLocal: true }])\<close> and the other
  initial values. The clock starts at \<open>t0\<close> milliseconds.
\<close>

definition local_id :: "user option \<Rightarrow> jsstring" where
  "local_id u = (case u of None \<Rightarrow> str_local
                 | Some x \<Rightarrow> if user_id x = [] then str_local else user_id x)"

definition initial_participants :: "user option \<Rightarrow> participant list" where
  "initial_participants u = [\<lparr>pid = local_id u, pname = str_Tu, isLocal = True\<rparr>]"

definition initial_messages :: "message list" where
  "initial_messages = [\<lparr>msg_id = 1, author = str_Sistema, body = str_welcome\<rparr>]"

definition initial :: "jsstring option \<Rightarrow> jsstring option \<Rightarrow> user option \<Rightarrow> nat \<Rightarrow> vc" where
  "initial mid tok u t0 =
     \<lparr>meetingId = mid, token = tok, user = u,
      socket = False, isCreator = False, meetingEnded = False, voiceSocket = False,
      peer = None, peerStatus = StConnecting,
      participants = initial_participants u,
      cameraOn = False, micOn = True, showChat = False, chatInput = [],
      hasNewMessages = False, messages = initial_messages,
      peerCallsRef = [], mediaStreamRef = None,
      newPeer = None, connectionTimeout = None, hasJoined = False,
      micOn_main = True, showChat_main = False, handleConnect_on = False,
      now = t0, timers = [], next_timer = 0, fired = [],
      chat_out = [], voice_out = [], chat_disconnected = False, voice_disconnected = False,
      peers = [], calls = [], streams = [], gum_log = [],
      alerts = [], navigations = [], http_log = []\<rparr>"

subsection \<open>Roster events of the chat socket\<close>

text \<open>
  \<^verbatim>\<open>newSocket.on('user-joined', ...)\<close>: the updater handed to \<^verbatim>\<open>setParticipants\<close> returns
  the roster as it is when the id is present or the roster has ten entries, and the roster
  with the new entry at the end otherwise.
\<close>

definition user_joined_upd :: "jsstring \<times> jsstring \<Rightarrow> participant list \<Rightarrow> participant list" where
  "user_joined_upd d prev =
     (if (\<exists>p \<in> set prev. pid p = fst d) \<or> length prev \<ge> 10 then prev
      else prev @ [\<lparr>pid = fst d, pname = snd d, isLocal = False\<rparr>])"

definition on_user_joined :: "jsstring \<times> jsstring \<Rightarrow> vc \<Rightarrow> vc" where
  "on_user_joined d s = s\<lparr>participants := user_joined_upd d (participants s)\<rparr>"

text \<open>\<^verbatim>\<open>newSocket.on('user-left', ...)\<close> filters the id out.\<close>

definition on_user_left :: "jsstring \<Rightarrow> vc \<Rightarrow> vc" where
  "on_user_left uid s = s\<lparr>participants := filter (\<lambda>p. pid p \<noteq> uid) (participants s)\<rparr>"

text \<open>\<^verbatim>\<open>newSocket.on('participants-list', ...)\<close> replaces the roster.\<close>

definition on_participants_list :: "(jsstring \<times> jsstring) list \<Rightarrow> vc \<Rightarrow> vc" where
  "on_participants_list ps s =
     (case user s of
        None \<Rightarrow> s
      | Some u \<Rightarrow>
          s\<lparr>participants :=
              map (\<lambda>p. \<lparr>pid = fst p,
                        pname = (if fst p = user_id u then str_Tu else snd p),
                        isLocal = (fst p = user_id u)\<rparr>) ps\<rparr>)"

text \<open>A run of \<^verbatim>\<open>user-joined\<close> events, in arrival order.\<close>

fun joins :: "(jsstring \<times> jsstring) list \<Rightarrow> vc \<Rightarrow> vc" where
  "joins [] s = s"
| "joins (d # ds) s = joins ds (on_user_joined d s)"

subsection \<open>Calls into the browser and the libraries\<close>

text \<open>\<^verbatim>\<open>setTimeout\<close> returns the handle \<open>next_timer s\<close>; the timer is due \<open>ms\<close> from now.\<close>

definition setTimeout :: "timer_task \<Rightarrow> nat \<Rightarrow> vc \<Rightarrow> vc" where
  "setTimeout task ms s =
     s\<lparr>timers := timers s @ [\<lparr>t_handle = next_timer s, t_due = now s + ms, t_task = task\<rparr>],
       next_timer := Suc (next_timer s)\<rparr>"

definition clearTimeout :: "nat option \<Rightarrow> vc \<Rightarrow> vc" where
  "clearTimeout h s =
     (case h of None \<Rightarrow> s
      | Some n \<Rightarrow> s\<lparr>timers := filter (\<lambda>t. t_handle t \<noteq> n) (timers s)\<rparr>)"

definition alert :: "jsstring \<Rightarrow> vc \<Rightarrow> vc" where
  "alert m s = s\<lparr>alerts := alerts s @ [m]\<rparr>"

definition navigate :: "jsstring \<Rightarrow> vc \<Rightarrow> vc" where
  "navigate path s = s\<lparr>navigations := navigations s @ [path]\<rparr>"

definition emit_chat :: "chat_emit \<Rightarrow> vc \<Rightarrow> vc" where
  "emit_chat e s = s\<lparr>chat_out := chat_out s @ [e]\<rparr>"

definition emit_voice :: "voice_emit \<Rightarrow> vc \<Rightarrow> vc" where
  "emit_voice e s = s\<lparr>voice_out := voice_out s @ [e]\<rparr>"

definition fetch :: "http_call \<Rightarrow> vc \<Rightarrow> vc" where
  "fetch c s = s\<lparr>http_log := http_log s @ [c]\<rparr>"

text \<open>\<^verbatim>\<open>new Peer(id, ...)\<close>; the new peer's reference is \<open>length (peers s)\<close>.\<close>

definition new_Peer :: "jsstring \<Rightarrow> vc \<Rightarrow> vc" where
  "new_Peer i s =
     s\<lparr>peers := peers s @
         [\<lparr>peer_ident = i, destroyed = False, disconnected = False, peer_opened = False\<rparr>]\<rparr>"

text \<open>\<^verbatim>\<open>peer.destroy()\<close> leaves the peer destroyed and disconnected.\<close>

definition peer_destroy :: "nat \<Rightarrow> vc \<Rightarrow> vc" where
  "peer_destroy p s =
     (case at (peers s) p of
        None \<Rightarrow> s
      | Some po \<Rightarrow> s\<lparr>peers := (peers s)[p := po\<lparr>destroyed := True, disconnected := True\<rparr>]\<rparr>)"

text \<open>
  \<^verbatim>\<open>peer.reconnect()\<close> as PeerJS has it: a disconnected peer that is not destroyed
  reconnects; a destroyed peer throws; a peer still making its first connection does nothing;
  a peer that is connected throws. \<open>None\<close> is the exception.
\<close>

definition peer_reconnect :: "nat \<Rightarrow> vc \<Rightarrow> vc option" where
  "peer_reconnect p s =
     (case at (peers s) p of
        None \<Rightarrow> None
      | Some po \<Rightarrow>
          if disconnected po \<and> \<not> destroyed po
            then Some (s\<lparr>peers := (peers s)[p := po\<lparr>disconnected := False\<rparr>]\<rparr>)
          else if destroyed po then None
          else if \<not> disconnected po \<and> \<not> peer_opened po then Some s
          else None)"

text \<open>
  \<^verbatim>\<open>peer.call(id, stream)\<close> as PeerJS has it: a disconnected peer returns no call (and the
  caller's \<^verbatim>\<open>call.on\<close> then throws); otherwise a new call, whose reference is
  \<open>length (calls s)\<close>. On a disconnected peer PeerJS also raises the peer's \<^verbatim>\<open>error\<close> event
  before it returns; the handler of that event is not run inside this function: the event is
  \<open>PeerErr\<close> among the events below.
\<close>

definition peer_call :: "nat \<Rightarrow> jsstring \<Rightarrow> nat \<Rightarrow> vc \<Rightarrow> vc option" where
  "peer_call p remote st s =
     (case at (peers s) p of
        None \<Rightarrow> None
      | Some po \<Rightarrow>
          if disconnected po then None
          else Some (s\<lparr>calls := calls s @
                 [\<lparr>call_peer = remote, call_stream = Some st, call_closed = False\<rparr>]\<rparr>))"

definition call_close :: "nat \<Rightarrow> vc \<Rightarrow> vc" where
  "call_close c s =
     (case at (calls s) c of
        None \<Rightarrow> s
      | Some co \<Rightarrow> s\<lparr>calls := (calls s)[c := co\<lparr>call_closed := True\<rparr>]\<rparr>)"

definition call_answer :: "nat \<Rightarrow> nat \<Rightarrow> vc \<Rightarrow> vc" where
  "call_answer c st s =
     (case at (calls s) c of
        None \<Rightarrow> s
      | Some co \<Rightarrow> s\<lparr>calls := (calls s)[c := co\<lparr>call_stream := Some st\<rparr>]\<rparr>)"

text \<open>
  \<^verbatim>\<open>getUserMedia({video, audio})\<close> when it is granted: a new stream with one live, enabled
  track for each kind asked for; its reference is \<open>length (streams s)\<close>.
\<close>

definition new_stream :: "bool \<times> bool \<Rightarrow> vc \<Rightarrow> vc" where
  "new_stream c s =
     s\<lparr>streams := streams s @
         [(if snd c then [\<lparr>kind = AudioTrack, enabled = True, live = True\<rparr>] else []) @
          (if fst c then [\<lparr>kind = VideoTrack, enabled = True, live = True\<rparr>] else [])]\<rparr>"

text \<open>\<^verbatim>\<open>stream.getTracks().forEach(t => t.stop())\<close>.\<close>

definition stop_tracks :: "nat \<Rightarrow> vc \<Rightarrow> vc" where
  "stop_tracks st s =
     (case at (streams s) st of
        None \<Rightarrow> s
      | Some ts \<Rightarrow> s\<lparr>streams := (streams s)[st := map (\<lambda>t. t\<lparr>live := False\<rparr>) ts]\<rparr>)"

text \<open>
  \<^verbatim>\<open>getVideoTracks()[0]\<close> and \<^verbatim>\<open>getAudioTracks()[0]\<close>: the first track of a kind, and
  the assignment to its \<^verbatim>\<open>enabled\<close>, which does nothing when there is no such track.
\<close>

fun first_track :: "track_kind \<Rightarrow> track list \<Rightarrow> track option" where
  "first_track k [] = None"
| "first_track k (t # ts) = (if kind t = k then Some t else first_track k ts)"

fun set_first_enabled :: "track_kind \<Rightarrow> bool \<Rightarrow> track list \<Rightarrow> track list" where
  "set_first_enabled k b [] = []"
| "set_first_enabled k b (t # ts) =
     (if kind t = k then t\<lparr>enabled := b\<rparr> # ts else t # set_first_enabled k b ts)"

subsection \<open>The main effect\<close>

text \<open>
  \<^verbatim>\<open>useEffect(() => { if (!meetingId || !token || !user) return; ... }, [...])\<close>: the two
  sockets, the peer, the 20-second timer, the request for the meeting and the handlers.
\<close>

definition main_effect :: "vc \<Rightarrow> vc" where
  "main_effect s =
     (case user s of
        None \<Rightarrow> s
      | Some u \<Rightarrow>
          if \<not> truthy (meetingId s) \<or> \<not> truthy (token s) then s
          else
            let s1 = s\<lparr>socket := True, voiceSocket := True\<rparr>;
                s2 = (new_Peer (user_id u) s1)
                       \<lparr>newPeer := Some (length (peers s1)), peer := Some (length (peers s1)),
                        peerStatus := StConnecting\<rparr>;
                s3 = (setTimeout ConnectionTimeout 20000 s2)
                       \<lparr>connectionTimeout := Some (next_timer s2)\<rparr>;
                s4 = fetch (GetMeeting (meetingId s) (token s)) s3
            in s4\<lparr>hasJoined := False, handleConnect_on := True,
                  micOn_main := micOn s, showChat_main := showChat s\<rparr>)"

text \<open>The answer to the request for the meeting; \<open>None\<close> when it carries no meeting.\<close>

definition on_meeting_fetched :: "jsstring option \<Rightarrow> vc \<Rightarrow> vc" where
  "on_meeting_fetched creator s =
     (case (creator, user s) of
        (Some c, Some u) \<Rightarrow> if c = user_id u then s\<lparr>isCreator := True\<rparr> else s
      | _ \<Rightarrow> s)"

text \<open>The identity of a replacement peer: \<^verbatim>\<open>`${user.id}_${Date.now()}`\<close>.\<close>

definition suffixed_id :: "jsstring \<Rightarrow> nat \<Rightarrow> jsstring" where
  "suffixed_id uid t = uid @ ascii ''_'' @ decimal t"

text \<open>
  \<^verbatim>\<open>new Peer(`${user.id}_${Date.now()}`, ...)\<close> followed by \<^verbatim>\<open>setPeer\<close>. What React does
  after the callback because the \<^verbatim>\<open>peer\<close> variable changed (the cleanup of the last effect
  and another run of the media effect) is not part of the callback and is not included here.
\<close>

definition replace_peer :: "user \<Rightarrow> vc \<Rightarrow> vc" where
  "replace_peer u s =
     (new_Peer (suffixed_id (user_id u) (now s)) s)\<lparr>peer := Some (length (peers s))\<rparr>"

text \<open>The callback of the 20-second timer.\<close>

definition connection_timeout_cb :: "vc \<Rightarrow> vc" where
  "connection_timeout_cb s =
     (case (newPeer s, user s) of
        (Some p, Some u) \<Rightarrow>
          (case at (peers s) p of
             None \<Rightarrow> s
           | Some po \<Rightarrow>
               if disconnected po then s
               else replace_peer u (s\<lparr>peerStatus := StError\<rparr>))
      | _ \<Rightarrow> s)"

text \<open>\<^verbatim>\<open>handleConnect\<close>.\<close>

definition handleConnect :: "vc \<Rightarrow> vc" where
  "handleConnect s =
     (case user s of
        None \<Rightarrow> s
      | Some u \<Rightarrow>
          if \<not> hasJoined s
            then (emit_chat (JoinMeeting (meetingId s) (user_id u) (user_name u)) s)
                   \<lparr>hasJoined := True\<rparr>
          else s)"

text \<open>\<^verbatim>\<open>newSocket.on('receive-message', ...)\<close>.\<close>

definition on_receive_message :: "jsstring \<times> jsstring \<Rightarrow> vc \<Rightarrow> vc" where
  "on_receive_message d s =
     s\<lparr>messages := messages s @
          [\<lparr>msg_id = length (messages s) + 1, author = fst d, body = snd d\<rparr>],
       hasNewMessages := (if \<not> showChat_main s then True else hasNewMessages s)\<rparr>"

text \<open>\<^verbatim>\<open>newSocket.on('meeting-ended', ...)\<close>.\<close>

definition on_meeting_ended :: "jsstring \<Rightarrow> vc \<Rightarrow> vc" where
  "on_meeting_ended m s = setTimeout NavigateRealtime 3000 (alert m (s\<lparr>meetingEnded := True\<rparr>))"

text \<open>\<^verbatim>\<open>newSocket.on('error', ...)\<close> and \<^verbatim>\<open>newVoiceSocket.on('voice-error', ...)\<close>.\<close>

definition on_chat_error :: "jsstring \<Rightarrow> vc \<Rightarrow> vc" where
  "on_chat_error m s = alert (ascii ''Error: '' @ m) s"

definition on_voice_error :: "jsstring \<Rightarrow> vc \<Rightarrow> vc" where
  "on_voice_error m s = alert (ascii ''Voice error: '' @ m) s"

text \<open>\<^verbatim>\<open>newPeer.on('open', ...)\<close> and the callback of its one-second timer.\<close>

definition on_peer_open :: "vc \<Rightarrow> vc" where
  "on_peer_open s =
     setTimeout JoinVoiceRoomLater 1000
       ((clearTimeout (connectionTimeout s) s)\<lparr>peerStatus := StConnected\<rparr>)"

definition join_voice_room :: "vc \<Rightarrow> vc" where
  "join_voice_room s =
     (case user s of
        None \<Rightarrow> s
      | Some u \<Rightarrow> emit_voice (JoinVoiceRoom (meetingId s) (user_id u) (user_id u)) s)"

text \<open>\<^verbatim>\<open>newPeer.on('error', ...)\<close> and the callback of its ten-second timer.\<close>

definition on_peer_error :: "jsstring \<times> jsstring \<Rightarrow> vc \<Rightarrow> vc" where
  "on_peer_error e s =
     (if fst e = ascii ''network'' \<or> fst e = ascii ''disconnected''
         \<or> str_includes (snd e) (ascii ''1006'') \<or> str_includes (snd e) (ascii ''Lost connection'')
        then setTimeout ReconnectLater 10000 (s\<lparr>peerStatus := StError\<rparr>)
      else s)"

definition reconnect_cb :: "vc \<Rightarrow> vc" where
  "reconnect_cb s =
     (case (newPeer s, user s) of
        (Some p, Some u) \<Rightarrow>
          (case at (peers s) p of
             None \<Rightarrow> s
           | Some po \<Rightarrow>
               if destroyed po then s
               else (case peer_reconnect p (s\<lparr>peerStatus := StConnecting\<rparr>) of
                       Some s' \<Rightarrow> s'
                     | None \<Rightarrow> replace_peer u (s\<lparr>peerStatus := StConnecting\<rparr>)))
      | _ \<Rightarrow> s)"

subsection \<open>Calls\<close>

text \<open>
  \<^verbatim>\<open>peerCallsRef.current\<close> is a \<^verbatim>\<open>Map\<close>, kept as an association list in insertion order:
  \<^verbatim>\<open>set\<close> is \<open>AList.update\<close> (the value of a present key is replaced in place, a new key goes
  to the end), \<^verbatim>\<open>get\<close> is \<open>map_of\<close>, \<^verbatim>\<open>delete\<close> is \<open>AList.delete\<close>.

  \<^verbatim>\<open>initiateCall\<close>: nothing without a local stream or for the user's own id; the exception
  of a call that could not be placed is caught.
\<close>

definition initiateCall :: "nat \<Rightarrow> jsstring \<Rightarrow> vc \<Rightarrow> vc" where
  "initiateCall p remote s =
     (case mediaStreamRef s of
        None \<Rightarrow> s
      | Some st \<Rightarrow>
          if (case user s of None \<Rightarrow> False | Some u \<Rightarrow> remote = user_id u) then s
          else (case peer_call p remote st s of
                  None \<Rightarrow> s
                | Some s' \<Rightarrow>
                    s'\<lparr>peerCallsRef := AList.update remote (length (calls s)) (peerCallsRef s')\<rparr>))"

text \<open>
  The callbacks of the timers of \<^verbatim>\<open>voice-joined\<close> and \<^verbatim>\<open>peer-joined\<close>; \<^verbatim>\<open>micOn\<close> is the
  value the main effect captured.
\<close>

definition call_peer_cb :: "jsstring \<Rightarrow> vc \<Rightarrow> vc" where
  "call_peer_cb remote s =
     (case newPeer s of
        None \<Rightarrow> s
      | Some p \<Rightarrow> if micOn_main s \<and> mediaStreamRef s \<noteq> None then initiateCall p remote s else s)"

definition call_peers_cb :: "jsstring list \<Rightarrow> vc \<Rightarrow> vc" where
  "call_peers_cb remotes s = fold call_peer_cb remotes s"

definition on_voice_joined :: "jsstring list \<Rightarrow> vc \<Rightarrow> vc" where
  "on_voice_joined remotes s = setTimeout (CallPeersLater remotes) 1500 s"

definition on_peer_joined :: "jsstring \<Rightarrow> vc \<Rightarrow> vc" where
  "on_peer_joined remote s = setTimeout (CallPeerLater remote) 1500 s"

text \<open>\<^verbatim>\<open>newVoiceSocket.on('peer-disconnected', ...)\<close>.\<close>

definition on_peer_disconnected :: "jsstring \<Rightarrow> vc \<Rightarrow> vc" where
  "on_peer_disconnected remote s =
     (case map_of (peerCallsRef s) remote of
        None \<Rightarrow> s
      | Some c \<Rightarrow> (call_close c s)\<lparr>peerCallsRef := AList.delete remote (peerCallsRef s)\<rparr>)"

text \<open>
  \<^verbatim>\<open>newPeer.on('call', ...)\<close> for the incoming call with reference \<open>c\<close>: ignored without a
  peer id, answered and tracked when the microphone is on and there is a stream, closed
  otherwise.
\<close>

definition on_call :: "nat \<Rightarrow> vc \<Rightarrow> vc" where
  "on_call c s =
     (case at (calls s) c of
        None \<Rightarrow> s
      | Some co \<Rightarrow>
          if call_peer co = [] then s
          else (case mediaStreamRef s of
                  Some st \<Rightarrow>
                    if micOn_main s
                      then (call_answer c st s)
                             \<lparr>peerCallsRef := AList.update (call_peer co) c (peerCallsRef s)\<rparr>
                    else call_close c s
                | None \<Rightarrow> call_close c s))"

text \<open>PeerJS creates the object of an incoming call before it raises \<^verbatim>\<open>call\<close>.\<close>

definition incoming_call :: "jsstring \<Rightarrow> vc \<Rightarrow> vc" where
  "incoming_call remote s =
     on_call (length (calls s))
       (s\<lparr>calls := calls s @ [\<lparr>call_peer = remote, call_stream = None, call_closed = False\<rparr>]\<rparr>)"

text \<open>
  The \<^verbatim>\<open>close\<close> and \<^verbatim>\<open>error\<close> handlers of a call placed by \<^verbatim>\<open>initiateCall\<close> for
  \<open>remote\<close>. Those of an answered call only log.
\<close>

definition on_outgoing_call_closed :: "jsstring \<Rightarrow> vc \<Rightarrow> vc" where
  "on_outgoing_call_closed remote s = s\<lparr>peerCallsRef := AList.delete remote (peerCallsRef s)\<rparr>"

text \<open>\<^verbatim>\<open>peerCallsRef.current.forEach(call => call.close()); peerCallsRef.current.clear()\<close>.\<close>

definition close_all_calls :: "vc \<Rightarrow> vc" where
  "close_all_calls s = (fold call_close (map snd (peerCallsRef s)) s)\<lparr>peerCallsRef := []\<rparr>"

subsection \<open>Local media\<close>

definition getUserMedia :: "bool \<times> bool \<Rightarrow> vc \<Rightarrow> vc" where
  "getUserMedia c s = s\<lparr>gum_log := gum_log s @ [c]\<rparr>"

text \<open>
  \<^verbatim>\<open>requestMicrophonePermission\<close>, run by the first effect when there is a meeting id: the
  request for audio alone, and what follows the \<^verbatim>\<open>await\<close>.
\<close>

definition requestMicrophonePermission_start :: "vc \<Rightarrow> vc" where
  "requestMicrophonePermission_start s =
     (if truthy (meetingId s) then getUserMedia (False, True) s else s)"

definition requestMicrophonePermission_resume :: "gum_outcome \<Rightarrow> vc \<Rightarrow> vc" where
  "requestMicrophonePermission_resume outcome s =
     (case outcome of
        Granted \<Rightarrow>
          (stop_tracks (length (streams s))
             ((new_stream (False, True) s)\<lparr>mediaStreamRef := Some (length (streams s))\<rparr>))
            \<lparr>micOn := True\<rparr>
      | Rejected n \<Rightarrow>
          (if n = str_NotAllowedError then alert str_mic_denied s else s)\<lparr>micOn := False\<rparr>)"

text \<open>
  \<^verbatim>\<open>ensureMedia\<close> is asynchronous. \<open>ensureMedia_start\<close> is the part before an
  \<^verbatim>\<open>await getUserMedia\<close>; it returns what is left to do when a request is pending:
  \<open>Fresh c\<close> after the request of the branch without a stream, \<open>Replace cur c\<close> after the
  request for video of the branch with the stream \<open>cur\<close>; \<open>c\<close> is the pair (video, audio) asked
  for. \<open>ensureMedia_resume\<close> is the part after the \<^verbatim>\<open>await\<close>, with what the browser
  answered and the value of \<^verbatim>\<open>mounted\<close> at that moment. The \<^verbatim>\<open>video\<close> element is not
  modelled.
\<close>

datatype gum_cont = Fresh "bool \<times> bool" | Replace nat "bool \<times> bool"

definition ensureMedia_start :: "vc \<Rightarrow> vc \<times> gum_cont option" where
  "ensureMedia_start s =
     (let desiredVideo = cameraOn s; desiredAudio = micOn s in
      case mediaStreamRef s of
        None \<Rightarrow>
          if desiredAudio
            then (getUserMedia (desiredVideo, desiredAudio) s,
                  Some (Fresh (desiredVideo, desiredAudio)))
          else (s, None)
      | Some cur \<Rightarrow>
          (case at (streams s) cur of
             None \<Rightarrow> (s, None)
           | Some ts \<Rightarrow>
               let s1 = s\<lparr>streams := (streams s)
                          [cur := set_first_enabled AudioTrack desiredAudio
                                    (set_first_enabled VideoTrack desiredVideo ts)]\<rparr>
               in if desiredVideo \<and> first_track VideoTrack ts = None
                    then (getUserMedia (True, desiredAudio) s1,
                          Some (Replace cur (True, desiredAudio)))
                  else (s1, None)))"

definition ensureMedia_resume :: "gum_cont \<Rightarrow> gum_outcome \<Rightarrow> bool \<Rightarrow> vc \<Rightarrow> vc" where
  "ensureMedia_resume k outcome mounted s =
     (case outcome of
        Rejected n \<Rightarrow>
          (if n = str_NotAllowedError then alert str_media_denied s else s)
            \<lparr>cameraOn := False, micOn := False\<rparr>
      | Granted \<Rightarrow>
          (case k of
             Fresh c \<Rightarrow>
               if \<not> mounted then stop_tracks (length (streams s)) (new_stream c s)
               else (new_stream c s)\<lparr>mediaStreamRef := Some (length (streams s))\<rparr>
           | Replace cur c \<Rightarrow>
               if \<not> mounted then stop_tracks (length (streams s)) (new_stream c s)
               else (stop_tracks cur (new_stream c s))
                      \<lparr>mediaStreamRef := Some (length (streams s))\<rparr>))"

text \<open>A run of \<^verbatim>\<open>ensureMedia\<close> from its call to its end, nothing else happening meanwhile.\<close>

definition ensureMedia :: "gum_outcome \<Rightarrow> bool \<Rightarrow> vc \<Rightarrow> vc" where
  "ensureMedia outcome mounted s =
     (case ensureMedia_start s of
        (s1, None) \<Rightarrow> s1
      | (s1, Some k) \<Rightarrow> ensureMedia_resume k outcome mounted s1)"

text \<open>
  The body of the media effect: \<^verbatim>\<open>ensureMedia()\<close> up to its first \<^verbatim>\<open>await\<close>, then the
  voice room is joined again when the microphone is on and there is a stream, and every call is
  closed otherwise.
\<close>

definition media_effect :: "vc \<Rightarrow> vc \<times> gum_cont option" where
  "media_effect s =
     (let r = ensureMedia_start s; s1 = fst r in
      (if peer s1 \<noteq> None \<and> voiceSocket s1 \<and> user s1 \<noteq> None \<and> truthy (meetingId s1)
         then (if micOn s1 \<and> mediaStreamRef s1 \<noteq> None then join_voice_room s1
               else close_all_calls s1)
       else s1,
       snd r))"

subsection \<open>Teardown\<close>

text \<open>The cleanup of the main effect; there is none when the effect returned at once.\<close>

definition main_cleanup :: "vc \<Rightarrow> vc" where
  "main_cleanup s =
     (case newPeer s of
        None \<Rightarrow> s
      | Some p \<Rightarrow>
          peer_destroy p
            ((clearTimeout (connectionTimeout s) s)
               \<lparr>handleConnect_on := False, chat_disconnected := True,
                voice_disconnected := True\<rparr>))"

text \<open>The cleanup of the last effect (\<^verbatim>\<open>// cleanup on unmount\<close>).\<close>

definition unmount_cleanup :: "vc \<Rightarrow> vc" where
  "unmount_cleanup s =
     (let s1 = (case mediaStreamRef s of None \<Rightarrow> s | Some st \<Rightarrow> stop_tracks st s);
          s2 = s1\<lparr>mediaStreamRef := None\<rparr>;
          s3 = (if socket s2 then s2\<lparr>chat_disconnected := True\<rparr> else s2);
          s4 = (if voiceSocket s3 then s3\<lparr>voice_disconnected := True\<rparr> else s3);
          s5 = (case peer s4 of None \<Rightarrow> s4 | Some p \<Rightarrow> peer_destroy p s4)
      in close_all_calls s5)"

text \<open>Unmounting runs the cleanups in the order of the effects.\<close>

definition unmount :: "vc \<Rightarrow> vc" where
  "unmount s = unmount_cleanup (main_cleanup s)"

subsection \<open>The controls\<close>

definition toggleChat :: "vc \<Rightarrow> vc" where
  "toggleChat s =
     s\<lparr>showChat := \<not> showChat s,
       hasNewMessages := (if \<not> showChat s then False else hasNewMessages s)\<rparr>"

definition toggleCamera :: "vc \<Rightarrow> vc" where
  "toggleCamera s = s\<lparr>cameraOn := \<not> cameraOn s\<rparr>"

definition toggleMic :: "vc \<Rightarrow> vc" where
  "toggleMic s = s\<lparr>micOn := \<not> micOn s\<rparr>"

text \<open>\<^verbatim>\<open>sendMessage\<close>.\<close>

definition sendMessage :: "vc \<Rightarrow> vc" where
  "sendMessage s =
     (let txt = trim (chatInput s) in
      if txt = [] \<or> \<not> socket s \<or> meetingEnded s then s
      else
        let authorName = (case user s of
                            None \<Rightarrow> str_Tu
                          | Some u \<Rightarrow> if user_name u = [] then str_Tu else user_name u)
        in (emit_chat (SendMessage (meetingId s) txt authorName) s)
             \<lparr>messages := messages s @
                [\<lparr>msg_id = length (messages s) + 1, author = str_Tu, body = txt\<rparr>],
              chatInput := []\<rparr>)"

text \<open>
  \<^verbatim>\<open>hangup\<close>; \<open>put_ok\<close> says whether the \<^verbatim>\<open>fetch\<close> of the creator's branch was
  fulfilled (a rejection is caught, and skips the \<^verbatim>\<open>end-meeting\<close> event).
\<close>

definition hangup :: "bool \<Rightarrow> vc \<Rightarrow> vc" where
  "hangup put_ok s =
     (let s1 = (if isCreator s \<and> truthy (meetingId s) \<and> truthy (token s)
                  then let s' = fetch (PutEndMeeting (meetingId s) (token s)) s
                       in if put_ok \<and> socket s' then emit_chat (EndMeeting (meetingId s)) s'
                          else s'
                else s);
          s2 = (case user s1 of
                  None \<Rightarrow> s1
                | Some u \<Rightarrow>
                    if voiceSocket s1
                      then emit_voice (LeaveVoiceRoom (meetingId s1) (user_id u)) s1
                    else s1)
      in navigate str_realtime (s2\<lparr>participants := [], showChat := False\<rparr>))"

subsection \<open>Timers\<close>

definition run_task :: "timer_task \<Rightarrow> vc \<Rightarrow> vc" where
  "run_task task s =
     (case task of
        ConnectionTimeout \<Rightarrow> connection_timeout_cb s
      | NavigateRealtime \<Rightarrow> navigate str_realtime s
      | JoinVoiceRoomLater \<Rightarrow> join_voice_room s
      | ReconnectLater \<Rightarrow> reconnect_cb s
      | CallPeersLater remotes \<Rightarrow> call_peers_cb remotes s
      | CallPeerLater remote \<Rightarrow> call_peer_cb remote s)"

text \<open>
  The browser runs the pending timer that is due first, the older one of two that are due at
  the same time.
\<close>

fun earliest :: "timer list \<Rightarrow> timer option" where
  "earliest [] = None"
| "earliest (t # ts) =
     (case earliest ts of
        None \<Rightarrow> Some t
      | Some t' \<Rightarrow> if t_due t \<le> t_due t' then Some t else Some t')"

definition next_due :: "timer list \<Rightarrow> nat \<Rightarrow> timer option" where
  "next_due ts limit = earliest (filter (\<lambda>t. t_due t \<le> limit) ts)"

text \<open>
  \<open>run_timers limit\<close> lets the clock reach \<open>limit\<close>: every timer due by then runs, in order,
  at the time it is due, and is added to \<open>fired\<close>, the list of the timers that have run.
  \<^verbatim>\<open>Date.now()\<close> is the clock.
\<close>

function run_timers :: "nat \<Rightarrow> vc \<Rightarrow> vc" where
  "run_timers limit s =
     (case next_due (timers s) limit of
        None \<Rightarrow> s\<lparr>now := max (now s) limit\<rparr>
      | Some t \<Rightarrow>
          run_timers limit
            (run_task (t_task t)
               (s\<lparr>timers := remove1 t (timers s), now := max (now s) (t_due t),
                  fired := fired s @ [t]\<rparr>)))"
  by pat_completeness auto
termination
proof (relation "measure (\<lambda>(limit, s). length (timers s))")
  show "wf (measure (\<lambda>(limit, s). length (timers s)))"
    by simp
next
  fix limit :: nat and s :: vc and t :: timer
  assume due: "next_due (timers s) limit = Some t"
  have mem: "earliest ts = Some x \<Longrightarrow> x \<in> set ts" for ts x
    by (induction ts arbitrary: x) (auto split: option.splits if_splits)
  have t_in: "t \<in> set (timers s)"
    using mem [OF due [unfolded next_due_def]] by simp
  have call1: "timers (call_peer_cb r u) = timers u" for r u
    by (simp add: call_peer_cb_def initiateCall_def peer_call_def
          split: option.splits)
  have calls: "timers (fold call_peer_cb rs u) = timers u" for rs u
    by (induction rs arbitrary: u) (simp_all add: call1)
  have keep: "timers (run_task task u) = timers u" for task u
    by (cases task)
       (simp_all add: run_task_def connection_timeout_cb_def replace_peer_def new_Peer_def
          navigate_def join_voice_room_def emit_voice_def reconnect_cb_def peer_reconnect_def
          call_peers_cb_def calls call1 split: option.splits)
  have "length (remove1 t (timers s)) < length (timers s)"
    using t_in by (simp add: length_remove1) (cases "timers s"; simp)
  then show "((limit, run_task (t_task t)
                 (s\<lparr>timers := remove1 t (timers s), now := max (now s) (t_due t),
                    fired := fired s @ [t]\<rparr>)),
              (limit, s)) \<in> measure (\<lambda>(limit, s). length (timers s))"
    by (simp add: keep)
qed

declare run_timers.simps [simp del]

definition advance :: "nat \<Rightarrow> vc \<Rightarrow> vc" where
  "advance ms s = run_timers (now s + ms) s"

subsection \<open>Everything that can happen to a mounted component\<close>

text \<open>
  An event of a socket, of the peer or of a call runs the handler that the main effect
  registered, so it needs the effect to have run; \<^verbatim>\<open>connect\<close> also needs
  \<^verbatim>\<open>handleConnect\<close> to be still registered. A drop of the chat socket has no handler.
  \<open>PeerOpen\<close> and \<open>PeerLost\<close> include what PeerJS does to the peer's flags. \<open>Advance\<close> lets
  time pass. \<open>MediaEffect\<close>, \<open>MediaResolved\<close> and \<open>Unmount\<close> are React running the media
  effect, a pending \<^verbatim>\<open>getUserMedia\<close> being answered, and the component being removed; the
  others are the user's clicks and keystrokes. The events come in any order and
  \<open>MediaResolved\<close> takes any continuation, so the runs include all those of the browser and
  more.
\<close>

datatype event =
    ChatConnect
  | ChatDropped
  | ReceiveMessage jsstring jsstring
  | ParticipantsList "(jsstring \<times> jsstring) list"
  | MeetingEnded jsstring
  | UserJoined jsstring jsstring
  | UserLeft jsstring
  | ChatError jsstring
  | MeetingFetched "jsstring option"
  | VoiceJoined "jsstring list"
  | PeerJoined jsstring
  | PeerDisconnected jsstring
  | VoiceError jsstring
  | PeerOpen
  | PeerLost
  | PeerErr jsstring jsstring
  | IncomingCall jsstring
  | OutgoingCallClosed jsstring
  | Advance nat
  | MicPermission gum_outcome
  | MediaEffect
  | MediaResolved gum_cont gum_outcome bool
  | TypeChat jsstring
  | SubmitChat
  | ToggleChat
  | ToggleCamera
  | ToggleMic
  | Hangup bool
  | Unmount

definition set_newPeer_flags :: "bool \<Rightarrow> bool \<Rightarrow> vc \<Rightarrow> vc" where
  "set_newPeer_flags d opn s =
     (case newPeer s of
        None \<Rightarrow> s
      | Some p \<Rightarrow>
          (case at (peers s) p of
             None \<Rightarrow> s
           | Some po \<Rightarrow>
               s\<lparr>peers := (peers s)[p := po\<lparr>disconnected := d, peer_opened := opn\<rparr>]\<rparr>))"

definition main_event :: "event \<Rightarrow> vc \<Rightarrow> vc" where
  "main_event e s =
     (case e of
        ChatConnect \<Rightarrow> if handleConnect_on s then handleConnect s else s
      | ReceiveMessage a t \<Rightarrow> on_receive_message (a, t) s
      | ParticipantsList ps \<Rightarrow> on_participants_list ps s
      | MeetingEnded m \<Rightarrow> on_meeting_ended m s
      | UserJoined uid n \<Rightarrow> on_user_joined (uid, n) s
      | UserLeft uid \<Rightarrow> on_user_left uid s
      | ChatError m \<Rightarrow> on_chat_error m s
      | MeetingFetched c \<Rightarrow> on_meeting_fetched c s
      | VoiceJoined remotes \<Rightarrow> on_voice_joined remotes s
      | PeerJoined remote \<Rightarrow> on_peer_joined remote s
      | PeerDisconnected remote \<Rightarrow> on_peer_disconnected remote s
      | VoiceError m \<Rightarrow> on_voice_error m s
      | PeerOpen \<Rightarrow> on_peer_open (set_newPeer_flags False True s)
      | PeerLost \<Rightarrow> set_newPeer_flags True False s
      | PeerErr ty m \<Rightarrow> on_peer_error (ty, m) s
      | IncomingCall remote \<Rightarrow> incoming_call remote s
      | OutgoingCallClosed remote \<Rightarrow> on_outgoing_call_closed remote s
      | _ \<Rightarrow> s)"

definition step :: "event \<Rightarrow> vc \<Rightarrow> vc" where
  "step e s =
     (case e of
        Advance ms \<Rightarrow> advance ms s
      | MicPermission outcome \<Rightarrow> requestMicrophonePermission_resume outcome s
      | MediaEffect \<Rightarrow> fst (media_effect s)
      | MediaResolved k outcome mounted \<Rightarrow> ensureMedia_resume k outcome mounted s
      | TypeChat t \<Rightarrow> s\<lparr>chatInput := t\<rparr>
      | SubmitChat \<Rightarrow> sendMessage s
      | ToggleChat \<Rightarrow> toggleChat s
      | ToggleCamera \<Rightarrow> toggleCamera s
      | ToggleMic \<Rightarrow> toggleMic s
      | Hangup put_ok \<Rightarrow> hangup put_ok s
      | Unmount \<Rightarrow> unmount s
      | _ \<Rightarrow> if newPeer s = None then s else main_event e s)"

fun run :: "event list \<Rightarrow> vc \<Rightarrow> vc" where
  "run [] s = s"
| "run (e # es) s = run es (step e s)"

text \<open>The \<^verbatim>\<open>join-meeting\<close> events among what was emitted on the chat socket.\<close>

fun is_join :: "chat_emit \<Rightarrow> bool" where
  "is_join (JoinMeeting m u n) = True"
| "is_join (SendMessage m t a) = False"
| "is_join (EndMeeting m) = False"


text \<open>A user and the events used to exercise the statements below.\<close>

definition ana :: user where
  "ana = \<lparr>user_id = ascii ''u1'', user_name = ascii ''Ana''\<rparr>"

definition mounted_ana :: vc where
  "mounted_ana = main_effect (initial (Some (ascii ''m1'')) (Some (ascii ''tok'')) (Some ana) 0)"

definition eleven_joins :: "(jsstring \<times> jsstring) list" where
  "eleven_joins = map (\<lambda>n. ([word_of_nat n], ascii ''x'')) [97 ..< 108]"

definition typing_hola :: vc where
  "typing_hola = mounted_ana\<lparr>chatInput := ascii ''  hola ''\<rparr>"

definition typing_blank :: vc where
  "typing_blank = mounted_ana\<lparr>chatInput := [0x20, 0x9, 0xA0]\<rparr>"

text \<open>The reason of the scenario of the specification: \<^verbatim>\<open>La reunion ya ha finalizado.\<close>\<close>

definition str_ya_finalizado :: jsstring where
  "str_ya_finalizado = ascii ''La reuni'' @ [0xF3] @ ascii ''n ya ha finalizado.''"

text \<open>The 20-second timer among the pending timers, and among those that have run.\<close>

definition is_timeout :: "timer \<Rightarrow> bool" where
  "is_timeout t = (t_task t = ConnectionTimeout)"

definition timeout_pending :: "vc \<Rightarrow> bool" where
  "timeout_pending s = (filter is_timeout (timers s) \<noteq> [])"

definition timeout_runs :: "vc \<Rightarrow> nat" where
  "timeout_runs s = length (filter is_timeout (fired s))"

text \<open>
  Every pending 20-second timer has the handle that the main effect keeps in
  \<^verbatim>\<open>connectionTimeout\<close>.
\<close>

definition timeout_known :: "vc \<Rightarrow> bool" where
  "timeout_known s =
     list_all (\<lambda>t. connectionTimeout s = Some (t_handle t)) (filter is_timeout (timers s))"

text \<open>The component after its main effect ran for a meeting, a token and a user.\<close>

definition mounted :: "jsstring \<Rightarrow> jsstring \<Rightarrow> user \<Rightarrow> nat \<Rightarrow> vc" where
  "mounted mid tok u t0 = main_effect (initial (Some mid) (Some tok) (Some u) t0)"

text \<open>How many \<^verbatim>\<open>join-meeting\<close> events have been emitted.\<close>

definition joins_emitted :: "vc \<Rightarrow> nat" where
  "joins_emitted s = length (filter is_join (chat_out s))"

text \<open>One \<^verbatim>\<open>join-meeting\<close> has been emitted when \<^verbatim>\<open>hasJoined\<close> is set, and none before.\<close>

definition join_once :: "vc \<Rightarrow> bool" where
  "join_once s = (joins_emitted s = (if hasJoined s then 1 else 0))"

text \<open>
  The call map has one entry for each key, and every call it tracks exists.
\<close>

definition tracked_ok :: "vc \<Rightarrow> bool" where
  "tracked_ok s \<longleftrightarrow>
     distinct (map fst (peerCallsRef s))
     \<and> list_all (\<lambda>kc. snd kc < length (calls s)) (peerCallsRef s)"

text \<open>A mounted component with a local stream, and the same with a call placed to \<open>u2\<close>.\<close>

definition with_stream :: vc where
  "with_stream = step (MediaResolved (Fresh (False, True)) Granted True) mounted_ana"

definition in_call :: vc where
  "in_call = run_task (CallPeerLater (ascii ''u2'')) with_stream"

text \<open>The mounted component right after the permission request of the first effect is granted.\<close>

definition after_permission :: vc where
  "after_permission = requestMicrophonePermission_resume Granted mounted_ana"

text \<open>
  The microphone turned off and on again, \<^verbatim>\<open>ensureMedia\<close> running to its end after each
  click.
\<close>

definition mic_off_on :: "gum_outcome \<Rightarrow> bool \<Rightarrow> gum_outcome \<Rightarrow> bool \<Rightarrow> vc \<Rightarrow> vc" where
  "mic_off_on o1 m1 o2 m2 s = ensureMedia o2 m2 (toggleMic (ensureMedia o1 m1 (toggleMic s)))"

text \<open>The permission request of a mounted component whose camera was turned on, granted.\<close>

definition camera_permission :: vc where
  "camera_permission =
     requestMicrophonePermission_resume Granted
       (requestMicrophonePermission_start (toggleCamera mounted_ana))"


section \<open>Properties\<close>

subsection \<open>The roster under \<^verbatim>\<open>user-joined\<close> events\<close>

lemma user_joined_upd_length:
  "length (user_joined_upd d ps) =
     (if (\<exists>p \<in> set ps. pid p = fst d) \<or> length ps \<ge> 10 then length ps else Suc (length ps))"
  by (simp add: user_joined_upd_def)

lemma user_joined_upd_mem:
  "p \<in> set (user_joined_upd d ps) \<Longrightarrow> p \<in> set ps \<or> pid p = fst d"
  by (auto simp: user_joined_upd_def split: if_splits)

lemma joins_length:
  "distinct (map fst ds) \<Longrightarrow>
   (\<forall>d \<in> set ds. \<forall>p \<in> set (participants s). pid p \<noteq> fst d) \<Longrightarrow>
   length (participants s) \<le> 10 \<Longrightarrow>
   length (participants (joins ds s)) = min (length (participants s) + length ds) 10"
proof (induction ds arbitrary: s)
  case Nil
  then show ?case by simp
next
  case (Cons d ds)
  let ?s = "on_user_joined d s"
  have fresh: "\<not> (\<exists>p \<in> set (participants s). pid p = fst d)"
    using Cons.prems(2) by simp
  have len: "length (participants ?s) =
      (if length (participants s) \<ge> 10 then length (participants s)
       else Suc (length (participants s)))"
    using fresh by (simp add: on_user_joined_def user_joined_upd_length)
  have disj: "\<forall>e \<in> set ds. \<forall>p \<in> set (participants ?s). pid p \<noteq> fst e"
  proof (intro ballI)
    fix e p
    assume e: "e \<in> set ds" and p: "p \<in> set (participants ?s)"
    from p have "p \<in> set (participants s) \<or> pid p = fst d"
      by (simp add: on_user_joined_def user_joined_upd_mem)
    moreover have "fst e \<noteq> fst d"
    proof
      assume eq: "fst e = fst d"
      have "fst e \<in> fst ` set ds" using e by (rule imageI)
      then show False using Cons.prems(1) eq by simp
    qed
    moreover have "p \<in> set (participants s) \<Longrightarrow> pid p \<noteq> fst e"
      using Cons.prems(2) e by simp
    ultimately show "pid p \<noteq> fst e" by auto
  qed
  have "length (participants (joins ds ?s)) = min (length (participants ?s) + length ds) 10"
    using Cons.IH[OF _ disj] Cons.prems(1,3) len by simp
  then show ?case using len Cons.prems(3) by simp
qed

text \<open>
  Claim C1. After \<open>N\<close> \<^verbatim>\<open>user-joined\<close> events with pairwise distinct ids, none of them the
  id of the local entry, and no other event, the roster that started with the local
  participant has \<open>min (N + 1) 10\<close> entries. A \<^verbatim>\<open>user-joined\<close> event for an id that is in
  the roster changes nothing, and no \<^verbatim>\<open>user-joined\<close> event makes an id occur twice.
\<close>

theorem roster_after_joins:
  "(distinct (map fst ds) \<and> local_id u \<notin> fst ` set ds \<longrightarrow>
      length (participants (joins ds (initial mid tok u t0))) = min (length ds + 1) 10)
   \<and> ((\<exists>p \<in> set (participants s). pid p = fst d) \<longrightarrow>
        on_user_joined d s = s \<and> length (participants (on_user_joined d s)) = length (participants s))
   \<and> (distinct (map pid (participants s)) \<longrightarrow> distinct (map pid (participants (on_user_joined d s))))"
proof (intro conjI impI)
  assume a: "distinct (map fst ds) \<and> local_id u \<notin> fst ` set ds"
  have "length (participants (joins ds (initial mid tok u t0))) =
        min (length (participants (initial mid tok u t0)) + length ds) 10"
    using a by (intro joins_length) (auto simp: initial_def initial_participants_def image_iff)
  then show "length (participants (joins ds (initial mid tok u t0))) = min (length ds + 1) 10"
    by (simp add: initial_def initial_participants_def)
next
  assume "\<exists>p \<in> set (participants s). pid p = fst d"
  then show "on_user_joined d s = s" by (simp add: on_user_joined_def user_joined_upd_def)
  then show "length (participants (on_user_joined d s)) = length (participants s)" by simp
next
  assume "distinct (map pid (participants s))"
  then show "distinct (map pid (participants (on_user_joined d s)))"
    by (auto simp: on_user_joined_def user_joined_upd_def)
qed


theorem roster_after_joins_witness:
  "distinct (map fst eleven_joins) \<and> local_id (Some ana) \<notin> fst ` set eleven_joins
   \<and> length (participants (joins eleven_joins (initial None None (Some ana) 0))) = 10
   \<and> (\<exists>p \<in> set (participants (joins eleven_joins (initial None None (Some ana) 0))).
         pid p = fst ([0x61], ascii ''again''))
   \<and> on_user_joined ([0x61], ascii ''again'') (joins eleven_joins (initial None None (Some ana) 0))
       = joins eleven_joins (initial None None (Some ana) 0)
   \<and> distinct (map pid (participants (joins eleven_joins (initial None None (Some ana) 0))))"
proof -
  let ?s = "joins eleven_joins (initial None None (Some ana) 0)"
  have ps: "map pid (participants ?s) =
      [ascii ''u1'', [0x61], [0x62], [0x63], [0x64], [0x65], [0x66], [0x67], [0x68], [0x69]]"
    by (simp add: eleven_joins_def initial_def initial_participants_def local_id_def ana_def
          on_user_joined_def user_joined_upd_def ascii_def)
  have h1: "distinct (map fst eleven_joins) \<and> local_id (Some ana) \<notin> fst ` set eleven_joins"
    by (simp add: eleven_joins_def local_id_def ana_def ascii_def)
  have h2: "\<exists>p \<in> set (participants ?s). pid p = fst ([0x61], ascii ''again'')"
  proof -
    have "[0x61] \<in> set (map pid (participants ?s))" unfolding ps by simp
    then show ?thesis by auto
  qed
  have h3: "distinct (map pid (participants ?s))" unfolding ps by (simp add: ascii_def)
  show ?thesis
    using roster_after_joins [where ds = eleven_joins and u = "Some ana" and mid = None
        and tok = None and ?t0.0 = 0 and s = ?s and d = "([0x61], ascii ''again'')"] h1 h2 h3
    by (simp add: eleven_joins_def)
qed

subsection \<open>Sending a chat message\<close>

lemma trim_empty_iff: "trim s = [] \<longleftrightarrow> (\<forall>c \<in> set s. is_js_space c)"
proof
  assume "trim s = []"
  then have all: "\<forall>c \<in> set (dropWhile is_js_space s). is_js_space c"
    by (simp add: trim_def dropWhile_eq_Nil_conv)
  have "dropWhile is_js_space s = []"
  proof (rule ccontr)
    assume ne: "dropWhile is_js_space s \<noteq> []"
    then have "\<not> is_js_space (hd (dropWhile is_js_space s))"
      by (rule hd_dropWhile)
    moreover have "hd (dropWhile is_js_space s) \<in> set (dropWhile is_js_space s)"
      using ne by simp
    ultimately show False using all by blast
  qed
  then show "\<forall>c \<in> set s. is_js_space c"
    by (simp add: dropWhile_eq_Nil_conv)
next
  assume "\<forall>c \<in> set s. is_js_space c"
  then have d: "dropWhile is_js_space s = []"
    by (simp add: dropWhile_eq_Nil_conv)
  show "trim s = []"
    unfolding trim_def d by simp
qed

text \<open>
  Claim C2. When the input is empty or only white space, or the \<^verbatim>\<open>socket\<close> variable is null,
  or the meeting has ended, \<^verbatim>\<open>sendMessage\<close> changes nothing: nothing is emitted and the
  transcript stays as it is. Otherwise it emits exactly one \<^verbatim>\<open>send-message\<close> with the trimmed
  text and appends one entry with the author of the local participant and the trimmed text; the
  entry is in the state the call returns, which depends on no event of the server.
\<close>

theorem sendMessage_spec:
  "((\<forall>c \<in> set (chatInput s). is_js_space c) \<or> \<not> socket s \<or> meetingEnded s \<longrightarrow>
      sendMessage s = s)
   \<and> (\<not> ((\<forall>c \<in> set (chatInput s). is_js_space c) \<or> \<not> socket s \<or> meetingEnded s) \<longrightarrow>
        chat_out (sendMessage s) =
          chat_out s @ [SendMessage (meetingId s) (trim (chatInput s))
                          (case user s of None \<Rightarrow> str_Tu
                           | Some u \<Rightarrow> if user_name u = [] then str_Tu else user_name u)]
        \<and> messages (sendMessage s) =
            messages s @ [\<lparr>msg_id = length (messages s) + 1, author = str_Tu,
                           body = trim (chatInput s)\<rparr>]
        \<and> voice_out (sendMessage s) = voice_out s)"
  by (simp add: sendMessage_def Let_def emit_chat_def trim_empty_iff [symmetric])

lemma mounted_ana_chat:
  "socket mounted_ana" "\<not> meetingEnded mounted_ana" "chat_out mounted_ana = []"
  "messages mounted_ana = initial_messages" "user mounted_ana = Some ana"
  "meetingId mounted_ana = Some (ascii ''m1'')"
  by (simp_all add: mounted_ana_def main_effect_def initial_def Let_def ana_def ascii_def
        fetch_def setTimeout_def new_Peer_def)

theorem sendMessage_spec_witness:
  "list_all is_js_space (chatInput typing_blank)
   \<and> sendMessage typing_blank = typing_blank
   \<and> \<not> ((\<forall>c \<in> set (chatInput typing_hola). is_js_space c) \<or> \<not> socket typing_hola
          \<or> meetingEnded typing_hola)
   \<and> chat_out (sendMessage typing_hola) =
       [SendMessage (Some (ascii ''m1'')) (ascii ''hola'') (ascii ''Ana'')]
   \<and> messages (sendMessage typing_hola) =
       initial_messages @ [\<lparr>msg_id = 2, author = str_Tu, body = ascii ''hola''\<rparr>]"
proof -
  have blank: "\<forall>c \<in> set (chatInput typing_blank). is_js_space c"
    by (simp add: typing_blank_def is_js_space_def)
  have hola: "\<not> ((\<forall>c \<in> set (chatInput typing_hola). is_js_space c) \<or> \<not> socket typing_hola
          \<or> meetingEnded typing_hola)"
    by (simp add: typing_hola_def mounted_ana_chat ascii_def is_js_space_def)
  show ?thesis
    using sendMessage_spec [of typing_blank] sendMessage_spec [of typing_hola] blank hola
    by (simp add: typing_hola_def mounted_ana_chat initial_messages_def ana_def ascii_def
          trim_def is_js_space_def list_all_iff)
qed

subsection \<open>The example component after its main effect\<close>

lemma mounted_ana_voice:
  "\<not> isCreator mounted_ana" "voiceSocket mounted_ana" "voice_out mounted_ana = []"
  "http_log mounted_ana = [GetMeeting (Some (ascii ''m1'')) (Some (ascii ''tok''))]"
  "navigations mounted_ana = []"
  by (simp_all add: mounted_ana_def main_effect_def initial_def Let_def ana_def ascii_def
        fetch_def setTimeout_def new_Peer_def)

subsection \<open>Timers\<close>

lemma earliest_mem: "earliest ts = Some t \<Longrightarrow> t \<in> set ts"
  by (induction ts arbitrary: t) (auto split: option.splits if_splits)

lemma earliest_None: "earliest ts = None \<longleftrightarrow> ts = []"
  by (cases ts) (auto split: option.splits)

lemma next_due_Some: "next_due ts limit = Some t \<Longrightarrow> t \<in> set ts \<and> t_due t \<le> limit"
  using earliest_mem [of "filter (\<lambda>t. t_due t \<le> limit) ts" t]
  by (simp add: next_due_def)

lemma next_due_None: "next_due ts limit = None \<longleftrightarrow> (\<forall>t \<in> set ts. \<not> t_due t \<le> limit)"
  by (simp add: next_due_def earliest_None filter_empty_conv)

lemma call_peer_cb_timers: "timers (call_peer_cb r s) = timers s"
  by (simp add: call_peer_cb_def initiateCall_def peer_call_def split: option.splits)

lemma call_peers_cb_timers: "timers (call_peers_cb rs s) = timers s"
  unfolding call_peers_cb_def
  by (induction rs arbitrary: s) (simp_all add: call_peer_cb_timers)

lemma run_task_timers: "timers (run_task task s) = timers s"
  by (cases task)
     (simp_all add: run_task_def connection_timeout_cb_def replace_peer_def new_Peer_def
        navigate_def join_voice_room_def emit_voice_def reconnect_cb_def peer_reconnect_def
        call_peers_cb_timers call_peer_cb_timers split: option.splits)

lemma call_peer_cb_navigations: "navigations (call_peer_cb r s) = navigations s"
  by (simp add: call_peer_cb_def initiateCall_def peer_call_def split: option.splits)

lemma call_peers_cb_navigations: "navigations (call_peers_cb rs s) = navigations s"
  unfolding call_peers_cb_def
  by (induction rs arbitrary: s) (simp_all add: call_peer_cb_navigations)

lemma run_task_navigations:
  "navigations (run_task task s) =
     navigations s @ (if task = NavigateRealtime then [str_realtime] else [])"
  by (cases task)
     (simp_all add: run_task_def connection_timeout_cb_def replace_peer_def new_Peer_def
        navigate_def join_voice_room_def emit_voice_def reconnect_cb_def peer_reconnect_def
        call_peers_cb_navigations call_peer_cb_navigations split: option.splits)

lemma filter_remove1_length:
  "t \<in> set ts \<Longrightarrow>
   length (filter P ts) = length (filter P (remove1 t ts)) + (if P t then 1 else 0)"
  by (induction ts) auto

text \<open>
  Letting the clock reach \<open>limit\<close> navigates once for each pending
  \<^verbatim>\<open>setTimeout(() => navigate('/realtime'), 3000)\<close> that is due by then.
\<close>

lemma run_timers_navigations:
  "navigations (run_timers limit s) =
     navigations s @
       replicate (length (filter (\<lambda>t. t_task t = NavigateRealtime \<and> t_due t \<le> limit) (timers s)))
         str_realtime"
proof (induction limit s rule: run_timers.induct)
  case (1 limit s)
  let ?P = "\<lambda>t. t_task t = NavigateRealtime \<and> t_due t \<le> limit"
  show ?case
  proof (cases "next_due (timers s) limit")
    case None
    then have "filter ?P (timers s) = []"
      by (auto simp: next_due_None filter_empty_conv)
    then show ?thesis
      using None by (simp add: run_timers.simps [of limit s])
  next
    case (Some t)
    let ?s' = "run_task (t_task t)
                 (s\<lparr>timers := remove1 t (timers s), now := max (now s) (t_due t),
                    fired := fired s @ [t]\<rparr>)"
    have t: "t \<in> set (timers s)" "t_due t \<le> limit"
      using next_due_Some [OF Some] by simp_all
    have ih: "navigations (run_timers limit ?s') =
        navigations ?s' @ replicate (length (filter ?P (timers ?s'))) str_realtime"
      using "1.IH" [OF Some] .
    have cnt: "length (filter ?P (timers s)) =
        length (filter ?P (remove1 t (timers s))) + (if ?P t then 1 else 0)"
      using t(1) by (rule filter_remove1_length)
    have "run_timers limit s = run_timers limit ?s'"
      using Some by (simp add: run_timers.simps [of limit s])
    then show ?thesis
      using ih cnt t(2)
      by (simp add: run_task_timers run_task_navigations replicate_app_Cons_same)
  qed
qed

lemma call_peer_cb_flags:
  "meetingEnded (call_peer_cb r s) = meetingEnded s" "alerts (call_peer_cb r s) = alerts s"
  by (simp_all add: call_peer_cb_def initiateCall_def peer_call_def split: option.splits)

lemma call_peers_cb_flags:
  "meetingEnded (call_peers_cb rs s) = meetingEnded s" "alerts (call_peers_cb rs s) = alerts s"
  unfolding call_peers_cb_def
  by (induction rs arbitrary: s) (simp_all add: call_peer_cb_flags)

lemma run_task_flags:
  "meetingEnded (run_task task s) = meetingEnded s" "alerts (run_task task s) = alerts s"
  by (cases task;
      simp add: run_task_def connection_timeout_cb_def replace_peer_def new_Peer_def
        navigate_def join_voice_room_def emit_voice_def reconnect_cb_def peer_reconnect_def
        call_peers_cb_flags call_peer_cb_flags split: option.splits)+

lemma run_timers_flags:
  "meetingEnded (run_timers limit s) = meetingEnded s \<and> alerts (run_timers limit s) = alerts s"
proof (induction limit s rule: run_timers.induct)
  case (1 limit s)
  show ?case
  proof (cases "next_due (timers s) limit")
    case None
    then show ?thesis by (simp add: run_timers.simps [of limit s])
  next
    case (Some t)
    then show ?thesis
      using "1.IH" [OF Some] by (simp add: run_timers.simps [of limit s] run_task_flags)
  qed
qed

subsection \<open>The end of the meeting\<close>

text \<open>
  Claim C5. On \<^verbatim>\<open>meeting-ended\<close> with the reason \<open>r\<close> the handler sets \<^verbatim>\<open>meetingEnded\<close>,
  shows exactly \<open>r\<close> in an \<^verbatim>\<open>alert\<close> and does not navigate yet. Whatever else is pending,
  letting \<open>ms\<close> milliseconds pass after the event navigates to the landing page once more than
  without the event when \<open>ms\<close> is at least 3000, and no more than without it before that; the
  flag stays set and no further \<^verbatim>\<open>alert\<close> is shown meanwhile.
\<close>

theorem meeting_ended_spec:
  "meetingEnded (on_meeting_ended r s)
   \<and> alerts (on_meeting_ended r s) = alerts s @ [r]
   \<and> navigations (on_meeting_ended r s) = navigations s
   \<and> meetingEnded (advance ms (on_meeting_ended r s))
   \<and> alerts (advance ms (on_meeting_ended r s)) = alerts s @ [r]
   \<and> navigations (advance ms (on_meeting_ended r s)) =
       navigations (advance ms s) @ (if 3000 \<le> ms then [str_realtime] else [])"
  by (simp add: advance_def run_timers_navigations run_timers_flags on_meeting_ended_def
        setTimeout_def alert_def replicate_append_same)

lemma mounted_ana_timers:
  "timers mounted_ana = [\<lparr>t_handle = 0, t_due = 20000, t_task = ConnectionTimeout\<rparr>]"
  "now mounted_ana = 0" "alerts mounted_ana = []"
  by (simp_all add: mounted_ana_def main_effect_def initial_def Let_def ana_def ascii_def
        fetch_def setTimeout_def new_Peer_def)

theorem meeting_ended_spec_witness:
  "meetingEnded (on_meeting_ended str_ya_finalizado mounted_ana)
   \<and> alerts (on_meeting_ended str_ya_finalizado mounted_ana) = [str_ya_finalizado]
   \<and> navigations (advance 2999 (on_meeting_ended str_ya_finalizado mounted_ana)) = []
   \<and> navigations (advance 3000 (on_meeting_ended str_ya_finalizado mounted_ana)) = [str_realtime]
   \<and> navigations (advance 60000 (on_meeting_ended str_ya_finalizado mounted_ana)) = [str_realtime]"
proof -
  have base: "navigations (advance ms mounted_ana) = []" for ms
    by (simp add: advance_def run_timers_navigations mounted_ana_timers mounted_ana_voice)
  show ?thesis
    using meeting_ended_spec [of str_ya_finalizado mounted_ana 2999]
      meeting_ended_spec [of str_ya_finalizado mounted_ana 3000]
      meeting_ended_spec [of str_ya_finalizado mounted_ana 60000]
    by (simp add: base mounted_ana_timers)
qed

subsection \<open>What the events leave alone\<close>

text \<open>Shared by the statements about the 20-second timer, the join flag and the call map.\<close>

lemma fold_frame: "(\<And>x s. f (g x s) = f s) \<Longrightarrow> f (fold g xs s) = f s"
  by (induction xs arbitrary: s) simp_all

lemmas handler_defs =
  handleConnect_def on_receive_message_def on_participants_list_def on_meeting_ended_def
  on_user_joined_def on_user_left_def on_chat_error_def on_meeting_fetched_def
  on_voice_joined_def on_peer_joined_def on_peer_disconnected_def on_voice_error_def
  on_peer_open_def set_newPeer_flags_def on_peer_error_def incoming_call_def on_call_def
  on_outgoing_call_closed_def

lemmas lib_defs =
  setTimeout_def clearTimeout_def alert_def navigate_def emit_chat_def emit_voice_def
  fetch_def new_Peer_def peer_destroy_def peer_reconnect_def peer_call_def call_close_def
  call_answer_def new_stream_def stop_tracks_def getUserMedia_def

text \<open>The closure of the main effect and the timers are out of reach of most calls.\<close>

lemma lib_frame:
  "connectionTimeout (alert m s) = connectionTimeout s"
  "newPeer (alert m s) = newPeer s"
  "fired (alert m s) = fired s"
  "timers (alert m s) = timers s"
  "connectionTimeout (navigate pa s) = connectionTimeout s"
  "newPeer (navigate pa s) = newPeer s"
  "fired (navigate pa s) = fired s"
  "timers (navigate pa s) = timers s"
  "connectionTimeout (emit_chat ce s) = connectionTimeout s"
  "newPeer (emit_chat ce s) = newPeer s"
  "fired (emit_chat ce s) = fired s"
  "timers (emit_chat ce s) = timers s"
  "connectionTimeout (emit_voice ve s) = connectionTimeout s"
  "newPeer (emit_voice ve s) = newPeer s"
  "fired (emit_voice ve s) = fired s"
  "timers (emit_voice ve s) = timers s"
  "connectionTimeout (fetch hc s) = connectionTimeout s"
  "newPeer (fetch hc s) = newPeer s"
  "fired (fetch hc s) = fired s"
  "timers (fetch hc s) = timers s"
  "connectionTimeout (new_Peer i s) = connectionTimeout s"
  "newPeer (new_Peer i s) = newPeer s"
  "fired (new_Peer i s) = fired s"
  "timers (new_Peer i s) = timers s"
  "connectionTimeout (peer_destroy p s) = connectionTimeout s"
  "newPeer (peer_destroy p s) = newPeer s"
  "fired (peer_destroy p s) = fired s"
  "timers (peer_destroy p s) = timers s"
  "connectionTimeout (call_answer c st s) = connectionTimeout s"
  "newPeer (call_answer c st s) = newPeer s"
  "fired (call_answer c st s) = fired s"
  "timers (call_answer c st s) = timers s"
  "connectionTimeout (new_stream gc s) = connectionTimeout s"
  "newPeer (new_stream gc s) = newPeer s"
  "fired (new_stream gc s) = fired s"
  "timers (new_stream gc s) = timers s"
  "connectionTimeout (stop_tracks st s) = connectionTimeout s"
  "newPeer (stop_tracks st s) = newPeer s"
  "fired (stop_tracks st s) = fired s"
  "timers (stop_tracks st s) = timers s"
  "connectionTimeout (getUserMedia gc s) = connectionTimeout s"
  "newPeer (getUserMedia gc s) = newPeer s"
  "fired (getUserMedia gc s) = fired s"
  "timers (getUserMedia gc s) = timers s"
  "connectionTimeout (setTimeout task ms s) = connectionTimeout s"
  "newPeer (setTimeout task ms s) = newPeer s"
  "fired (setTimeout task ms s) = fired s"
  "connectionTimeout (clearTimeout h s) = connectionTimeout s"
  "newPeer (clearTimeout h s) = newPeer s"
  "fired (clearTimeout h s) = fired s"
  by (simp_all add: lib_defs split: option.splits)

lemma call_close_frame:
  "connectionTimeout (call_close c s) = connectionTimeout s"
  "newPeer (call_close c s) = newPeer s"
  "fired (call_close c s) = fired s"
  "timers (call_close c s) = timers s"
  by (simp_all add: call_close_def split: option.splits)

lemma close_all_calls_frame:
  "connectionTimeout (close_all_calls s) = connectionTimeout s"
  "newPeer (close_all_calls s) = newPeer s"
  "fired (close_all_calls s) = fired s"
  "timers (close_all_calls s) = timers s"
  by (simp_all add: close_all_calls_def fold_frame call_close_frame)

lemma main_event_frame:
  "connectionTimeout (main_event e s) = connectionTimeout s"
  "newPeer (main_event e s) = newPeer s"
  "fired (main_event e s) = fired s"
  by (cases e; simp add: main_event_def handler_defs lib_defs call_close_frame Let_def
        split: option.splits)+

lemma main_event_timeouts:
  "set (filter is_timeout (timers (main_event e s))) \<subseteq> set (filter is_timeout (timers s))"
  by (cases e; auto simp add: main_event_def handler_defs lib_defs call_close_frame Let_def
        is_timeout_def split: option.splits)

lemma ensureMedia_start_frame:
  "connectionTimeout (fst (ensureMedia_start s)) = connectionTimeout s"
  "newPeer (fst (ensureMedia_start s)) = newPeer s"
  "fired (fst (ensureMedia_start s)) = fired s"
  "timers (fst (ensureMedia_start s)) = timers s"
  by (simp_all add: ensureMedia_start_def Let_def lib_frame split: option.splits)

lemma media_effect_frame:
  "connectionTimeout (fst (media_effect s)) = connectionTimeout s"
  "newPeer (fst (media_effect s)) = newPeer s"
  "fired (fst (media_effect s)) = fired s"
  "timers (fst (media_effect s)) = timers s"
  by (simp_all add: media_effect_def Let_def ensureMedia_start_frame close_all_calls_frame
        join_voice_room_def lib_frame split: option.splits)

lemma ensureMedia_resume_frame:
  "connectionTimeout (ensureMedia_resume k outcome m s) = connectionTimeout s"
  "newPeer (ensureMedia_resume k outcome m s) = newPeer s"
  "fired (ensureMedia_resume k outcome m s) = fired s"
  "timers (ensureMedia_resume k outcome m s) = timers s"
  by (simp_all add: ensureMedia_resume_def lib_frame
        split: gum_outcome.splits gum_cont.splits)

lemma requestMicrophonePermission_resume_frame:
  "connectionTimeout (requestMicrophonePermission_resume outcome s) = connectionTimeout s"
  "newPeer (requestMicrophonePermission_resume outcome s) = newPeer s"
  "fired (requestMicrophonePermission_resume outcome s) = fired s"
  "timers (requestMicrophonePermission_resume outcome s) = timers s"
  by (simp_all add: requestMicrophonePermission_resume_def lib_frame
        split: gum_outcome.splits)

lemma controls_frame:
  "connectionTimeout (sendMessage s) = connectionTimeout s"
  "newPeer (sendMessage s) = newPeer s"
  "fired (sendMessage s) = fired s"
  "timers (sendMessage s) = timers s"
  "connectionTimeout (hangup b s) = connectionTimeout s"
  "newPeer (hangup b s) = newPeer s"
  "fired (hangup b s) = fired s"
  "timers (hangup b s) = timers s"
  by (simp_all add: sendMessage_def hangup_def Let_def lib_frame split: option.splits)

lemma main_cleanup_frame:
  "connectionTimeout (main_cleanup s) = connectionTimeout s"
  "newPeer (main_cleanup s) = newPeer s"
  "fired (main_cleanup s) = fired s"
  "set (timers (main_cleanup s)) \<subseteq> set (timers s)"
  by (auto simp add: main_cleanup_def lib_frame clearTimeout_def split: option.splits)

lemma unmount_cleanup_frame:
  "connectionTimeout (unmount_cleanup s) = connectionTimeout s"
  "newPeer (unmount_cleanup s) = newPeer s"
  "fired (unmount_cleanup s) = fired s"
  "timers (unmount_cleanup s) = timers s"
  by (simp_all add: unmount_cleanup_def Let_def close_all_calls_frame lib_frame
        split: option.splits)

lemma unmount_frame:
  "connectionTimeout (unmount s) = connectionTimeout s"
  "newPeer (unmount s) = newPeer s"
  "fired (unmount s) = fired s"
  "set (timers (unmount s)) \<subseteq> set (timers s)"
  by (simp_all add: unmount_def unmount_cleanup_frame main_cleanup_frame)

lemma call_peer_cb_frame:
  "connectionTimeout (call_peer_cb r s) = connectionTimeout s"
  "newPeer (call_peer_cb r s) = newPeer s"
  "fired (call_peer_cb r s) = fired s"
  by (simp_all add: call_peer_cb_def initiateCall_def peer_call_def split: option.splits)

lemma run_task_frame:
  "connectionTimeout (run_task task s) = connectionTimeout s"
  "newPeer (run_task task s) = newPeer s"
  "fired (run_task task s) = fired s"
  by (cases task;
      simp add: run_task_def connection_timeout_cb_def replace_peer_def reconnect_cb_def
        join_voice_room_def call_peers_cb_def fold_frame call_peer_cb_frame lib_defs
        split: option.splits)+

text \<open>Letting time pass keeps the closure of the main effect and only uses up timers.\<close>

lemma run_timers_frame:
  "connectionTimeout (run_timers limit s) = connectionTimeout s
   \<and> newPeer (run_timers limit s) = newPeer s
   \<and> set (timers (run_timers limit s)) \<subseteq> set (timers s)"
proof (induction limit s rule: run_timers.induct)
  case (1 limit s)
  show ?case
  proof (cases "next_due (timers s) limit")
    case None
    then show ?thesis by (simp add: run_timers.simps [of limit s])
  next
    case (Some t)
    have "set (remove1 t (timers s)) \<subseteq> set (timers s)"
      by (rule set_remove1_subset)
    then show ?thesis
      using "1.IH" [OF Some] Some
      by (simp add: run_timers.simps [of limit s] run_task_frame run_task_timers) blast
  qed
qed

lemma run_timers_no_timeout:
  "\<not> timeout_pending s \<Longrightarrow>
   \<not> timeout_pending (run_timers limit s) \<and> timeout_runs (run_timers limit s) = timeout_runs s"
proof (induction limit s rule: run_timers.induct)
  case (1 limit s)
  show ?case
  proof (cases "next_due (timers s) limit")
    case None
    then show ?thesis
      using "1.prems" by (simp add: run_timers.simps [of limit s] timeout_pending_def timeout_runs_def)
  next
    case (Some t)
    let ?s' = "run_task (t_task t)
                 (s\<lparr>timers := remove1 t (timers s), now := max (now s) (t_due t),
                    fired := fired s @ [t]\<rparr>)"
    have t: "t \<in> set (timers s)"
      using next_due_Some [OF Some] by simp
    have none: "\<forall>x \<in> set (timers s). \<not> is_timeout x"
      using "1.prems" by (simp add: timeout_pending_def filter_empty_conv)
    have nt: "\<not> is_timeout t"
      using none t by blast
    have "\<forall>x \<in> set (remove1 t (timers s)). \<not> is_timeout x"
      using none set_remove1_subset [of t "timers s"] by blast
    then have np: "\<not> timeout_pending ?s'"
      by (simp add: timeout_pending_def filter_empty_conv run_task_timers)
    have runs: "timeout_runs ?s' = timeout_runs s"
      using nt by (simp add: timeout_runs_def run_task_frame)
    have "run_timers limit s = run_timers limit ?s'"
      using Some by (simp add: run_timers.simps [of limit s])
    then show ?thesis
      using "1.IH" [OF Some np] runs by simp
  qed
qed

lemma step_frame:
  "connectionTimeout (step e s) = connectionTimeout s"
  "newPeer (step e s) = newPeer s"
  by (cases e;
      simp add: step_def main_event_frame advance_def run_timers_frame
        requestMicrophonePermission_resume_frame media_effect_frame ensureMedia_resume_frame
        controls_frame unmount_frame toggleChat_def toggleCamera_def toggleMic_def)+

lemma step_timeouts:
  "set (filter is_timeout (timers (step e s))) \<subseteq> set (filter is_timeout (timers s))"
proof (cases e)
  case (Advance ms)
  then show ?thesis
    using run_timers_frame [of "now s + ms" s] by (auto simp: step_def advance_def)
next
  case Unmount
  then show ?thesis
    using unmount_frame(4) [of s] by (auto simp: step_def)
qed (use main_event_timeouts [of e s] in
      \<open>simp_all add: step_def requestMicrophonePermission_resume_frame media_effect_frame
         ensureMedia_resume_frame controls_frame toggleChat_def toggleCamera_def toggleMic_def\<close>)

lemma step_no_timeout:
  assumes "\<not> timeout_pending s"
  shows "\<not> timeout_pending (step e s) \<and> timeout_runs (step e s) = timeout_runs s"
proof -
  have pend: "\<not> timeout_pending (step e s)"
    using assms step_timeouts [of e s] by (auto simp add: timeout_pending_def filter_empty_conv)
  have "timeout_runs (step e s) = timeout_runs s"
  proof (cases e)
    case (Advance ms)
    then show ?thesis
      using run_timers_no_timeout [OF assms, of "now s + ms"] by (simp add: step_def advance_def)
  qed (simp_all add: step_def timeout_runs_def main_event_frame
         requestMicrophonePermission_resume_frame media_effect_frame ensureMedia_resume_frame
         controls_frame unmount_frame toggleChat_def toggleCamera_def toggleMic_def)
  then show ?thesis using pend by simp
qed

lemma run_no_timeout:
  "\<not> timeout_pending s \<Longrightarrow>
   \<not> timeout_pending (run es s) \<and> timeout_runs (run es s) = timeout_runs s"
proof (induction es arbitrary: s)
  case Nil
  then show ?case by simp
next
  case (Cons e es)
  have a: "\<not> timeout_pending (step e s)" "timeout_runs (step e s) = timeout_runs s"
    using step_no_timeout [OF Cons.prems] by simp_all
  show ?case
    using Cons.IH [OF a(1)] a(2) by simp
qed

lemma step_timeout_known: "timeout_known s \<Longrightarrow> timeout_known (step e s)"
  using step_timeouts [of e s]
  by (auto simp add: timeout_known_def list_all_iff step_frame)

lemma run_timeout_known: "timeout_known s \<Longrightarrow> timeout_known (run es s)"
  by (induction es arbitrary: s) (simp_all add: step_timeout_known)

lemma run_newPeer: "newPeer (run es s) = newPeer s"
  by (induction es arbitrary: s) (simp_all add: step_frame)

lemma peer_open_clears_timeout:
  assumes "timeout_known s" and "newPeer s \<noteq> None"
  shows "\<not> timeout_pending (step PeerOpen s) \<and> timeout_runs (step PeerOpen s) = timeout_runs s"
  using assms
  by (auto simp add: step_def main_event_def on_peer_open_def set_newPeer_flags_def
        setTimeout_def clearTimeout_def timeout_known_def timeout_pending_def timeout_runs_def
        list_all_iff filter_empty_conv is_timeout_def split: option.splits)

subsection \<open>The 20-second timer of the peer\<close>

lemma run_timers_idle:
  "\<forall>t \<in> set (timers s). limit < t_due t \<Longrightarrow> run_timers limit s = s\<lparr>now := max (now s) limit\<rparr>"
proof -
  assume "\<forall>t \<in> set (timers s). limit < t_due t"
  then have "next_due (timers s) limit = None"
    by (auto simp: next_due_None)
  then show ?thesis
    by (simp add: run_timers.simps [of limit s])
qed

lemma run_timers_single:
  assumes "timers s = [t]" and "t_due t \<le> limit"
  shows "run_timers limit s =
           (run_task (t_task t) (s\<lparr>timers := [], now := max (now s) (t_due t), fired := fired s @ [t]\<rparr>))
             \<lparr>now := max (max (now s) (t_due t)) limit\<rparr>"
proof -
  let ?s' = "run_task (t_task t)
               (s\<lparr>timers := [], now := max (now s) (t_due t), fired := fired s @ [t]\<rparr>)"
  have nd: "next_due (timers s) limit = Some t"
    using assms by (simp add: next_due_def)
  have step1: "run_timers limit s = run_timers limit ?s'"
    using nd assms(1) by (simp add: run_timers.simps [of limit s])
  have "timers ?s' = []"
    by (simp add: run_task_timers)
  then have "run_timers limit ?s' = ?s'\<lparr>now := max (now ?s') limit\<rparr>"
    by (simp add: run_timers_idle)
  moreover have "now ?s' = max (now s) (t_due t)"
    by (cases "t_task t";
        simp add: run_task_def connection_timeout_cb_def replace_peer_def reconnect_cb_def
          join_voice_room_def call_peers_cb_def fold_frame call_peer_cb_def initiateCall_def
          lib_defs split: option.splits)
  ultimately show ?thesis
    using step1 by simp
qed

lemma mounted_fields:
  assumes "mid \<noteq> []" and "tok \<noteq> []"
  shows "timers (mounted mid tok u t0) =
           [\<lparr>t_handle = 0, t_due = t0 + 20000, t_task = ConnectionTimeout\<rparr>]"
    and "newPeer (mounted mid tok u t0) = Some 0"
    and "peer (mounted mid tok u t0) = Some 0"
    and "peers (mounted mid tok u t0) =
           [\<lparr>peer_ident = user_id u, destroyed = False, disconnected = False, peer_opened = False\<rparr>]"
    and "user (mounted mid tok u t0) = Some u"
    and "now (mounted mid tok u t0) = t0"
    and "peerStatus (mounted mid tok u t0) = StConnecting"
    and "connectionTimeout (mounted mid tok u t0) = Some 0"
    and "fired (mounted mid tok u t0) = []"
  using assms
  by (simp_all add: mounted_def main_effect_def initial_def Let_def fetch_def setTimeout_def
        new_Peer_def)

lemma mounted_timeout_known:
  "mid \<noteq> [] \<Longrightarrow> tok \<noteq> [] \<Longrightarrow> timeout_known (mounted mid tok u t0)"
  by (simp add: timeout_known_def mounted_fields)

lemma advance_mounted_early:
  assumes "mid \<noteq> []" and "tok \<noteq> []" and "ms < 20000"
  shows "advance ms (mounted mid tok u t0) = (mounted mid tok u t0)\<lparr>now := t0 + ms\<rparr>"
  using assms by (simp add: advance_def run_timers_idle mounted_fields)

lemma advance_mounted_late:
  assumes "mid \<noteq> []" and "tok \<noteq> []" and "20000 \<le> ms"
  shows "peerStatus (advance ms (mounted mid tok u t0)) = StError"
    and "peers (advance ms (mounted mid tok u t0)) =
           [\<lparr>peer_ident = user_id u, destroyed = False, disconnected = False, peer_opened = False\<rparr>,
            \<lparr>peer_ident = suffixed_id (user_id u) (t0 + 20000), destroyed = False,
              disconnected = False, peer_opened = False\<rparr>]"
    and "peer (advance ms (mounted mid tok u t0)) = Some 1"
    and "timers (advance ms (mounted mid tok u t0)) = []"
    and "timeout_runs (advance ms (mounted mid tok u t0)) = 1"
    and "now (advance ms (mounted mid tok u t0)) = t0 + ms"
proof -
  let ?m = "mounted mid tok u t0"
  let ?t = "\<lparr>t_handle = 0, t_due = t0 + 20000, t_task = ConnectionTimeout\<rparr>"
  have tm: "timers ?m = [?t]"
    using assms by (simp add: mounted_fields)
  have eq: "advance ms ?m =
      (run_task ConnectionTimeout
         (?m\<lparr>timers := [], now := max (now ?m) (t0 + 20000), fired := fired ?m @ [?t]\<rparr>))
        \<lparr>now := max (max (now ?m) (t0 + 20000)) (now ?m + ms)\<rparr>"
    unfolding advance_def
    using run_timers_single [OF tm, of "now ?m + ms"] assms(3)
    by (simp add: mounted_fields(6) [OF assms(1,2)])
  show "peerStatus (advance ms ?m) = StError"
    and "peers (advance ms ?m) =
           [\<lparr>peer_ident = user_id u, destroyed = False, disconnected = False, peer_opened = False\<rparr>,
            \<lparr>peer_ident = suffixed_id (user_id u) (t0 + 20000), destroyed = False,
              disconnected = False, peer_opened = False\<rparr>]"
    and "peer (advance ms ?m) = Some 1"
    and "timers (advance ms ?m) = []"
    and "timeout_runs (advance ms ?m) = 1"
    and "now (advance ms ?m) = t0 + ms"
    unfolding eq
    using assms
    by (simp_all add: run_task_def connection_timeout_cb_def replace_peer_def new_Peer_def
          at_def mounted_fields timeout_runs_def is_timeout_def)
qed

lemma advance_mounted_lost:
  assumes "mid \<noteq> []" and "tok \<noteq> []" and "20000 \<le> ms"
  shows "peerStatus (advance ms (step PeerLost (mounted mid tok u t0))) = StConnecting"
    and "map peer_ident (peers (advance ms (step PeerLost (mounted mid tok u t0)))) = [user_id u]"
    and "peer (advance ms (step PeerLost (mounted mid tok u t0))) = Some 0"
proof -
  let ?m = "mounted mid tok u t0"
  let ?l = "step PeerLost ?m"
  let ?t = "\<lparr>t_handle = 0, t_due = t0 + 20000, t_task = ConnectionTimeout\<rparr>"
  have l: "?l = ?m\<lparr>peers := [\<lparr>peer_ident = user_id u, destroyed = False, disconnected = True,
                                peer_opened = False\<rparr>]\<rparr>"
    using assms by (simp add: step_def main_event_def set_newPeer_flags_def at_def mounted_fields)
  have tm: "timers ?l = [?t]"
    using assms by (simp add: l mounted_fields)
  have eq: "advance ms ?l =
      (run_task ConnectionTimeout
         (?l\<lparr>timers := [], now := max (now ?l) (t0 + 20000), fired := fired ?l @ [?t]\<rparr>))
        \<lparr>now := max (max (now ?l) (t0 + 20000)) (now ?l + ms)\<rparr>"
    unfolding advance_def
    using run_timers_single [OF tm, of "now ?l + ms"] assms(3)
    by (simp add: l mounted_fields(6) [OF assms(1,2)])
  show "peerStatus (advance ms ?l) = StConnecting"
    and "map peer_ident (peers (advance ms ?l)) = [user_id u]"
    and "peer (advance ms ?l) = Some 0"
    unfolding eq
    using assms
    by (simp_all add: l run_task_def connection_timeout_cb_def at_def mounted_fields)
qed

lemma suffixed_u1: "suffixed_id (ascii ''u1'') 20000 = ascii ''u1_20000''"
  by (simp add: suffixed_id_def decimal.simps ascii_def)

text \<open>
  Claim C4, as the code has it. The main effect has run at time \<open>t0\<close>. While fewer than 20
  seconds have passed and nothing else has happened, the status is still \<open>connecting\<close> and
  there is one peer. Once 20 seconds have passed without \<^verbatim>\<open>open\<close>, the status is \<open>error\<close> and
  a second peer exists whose identity is the user's id, an underscore and the time \<open>t0 + 20000\<close>
  at which the timer ran: the callback creates it at once, no timer is left pending, and there
  is no wait of ten seconds. When PeerJS has flagged the peer disconnected the callback does
  nothing. Whatever happened before it, once \<^verbatim>\<open>open\<close> arrives the 20-second timer is not
  pending and its callback never runs again, whatever happens afterwards.
\<close>

theorem connection_timeout_spec:
  "mid \<noteq> [] \<and> tok \<noteq> [] \<longrightarrow>
     (ms < 20000 \<longrightarrow>
        peerStatus (advance ms (mounted mid tok u t0)) = StConnecting
        \<and> map peer_ident (peers (advance ms (mounted mid tok u t0))) = [user_id u]
        \<and> timeout_runs (advance ms (mounted mid tok u t0)) = 0)
     \<and> (20000 \<le> ms \<longrightarrow>
          peerStatus (advance ms (mounted mid tok u t0)) = StError
          \<and> map peer_ident (peers (advance ms (mounted mid tok u t0))) =
              [user_id u, suffixed_id (user_id u) (t0 + 20000)]
          \<and> peer (advance ms (mounted mid tok u t0)) = Some 1
          \<and> timers (advance ms (mounted mid tok u t0)) = []
          \<and> timeout_runs (advance ms (mounted mid tok u t0)) = 1
          \<and> peerStatus (advance ms (step PeerLost (mounted mid tok u t0))) = StConnecting
          \<and> map peer_ident (peers (advance ms (step PeerLost (mounted mid tok u t0)))) = [user_id u])
     \<and> \<not> timeout_pending (run es2 (step PeerOpen (run es1 (mounted mid tok u t0))))
     \<and> timeout_runs (run es2 (step PeerOpen (run es1 (mounted mid tok u t0)))) =
         timeout_runs (run es1 (mounted mid tok u t0))"
proof (intro impI conjI)
  assume a: "mid \<noteq> [] \<and> tok \<noteq> []"
  let ?m = "mounted mid tok u t0"
  have known: "timeout_known (run es1 ?m)"
    using a by (simp add: run_timeout_known mounted_timeout_known)
  have np: "newPeer (run es1 ?m) \<noteq> None"
    using a by (simp add: run_newPeer mounted_fields)
  have opened: "\<not> timeout_pending (step PeerOpen (run es1 ?m))"
    "timeout_runs (step PeerOpen (run es1 ?m)) = timeout_runs (run es1 ?m)"
    using peer_open_clears_timeout [OF known np] by simp_all
  show "\<not> timeout_pending (run es2 (step PeerOpen (run es1 ?m)))"
    using run_no_timeout [OF opened(1)] by simp
  show "timeout_runs (run es2 (step PeerOpen (run es1 ?m))) = timeout_runs (run es1 ?m)"
    using run_no_timeout [OF opened(1), of es2] opened(2) by simp
next
  assume a: "mid \<noteq> [] \<and> tok \<noteq> []" and e: "ms < 20000"
  show "peerStatus (advance ms (mounted mid tok u t0)) = StConnecting"
    and "map peer_ident (peers (advance ms (mounted mid tok u t0))) = [user_id u]"
    and "timeout_runs (advance ms (mounted mid tok u t0)) = 0"
    using a e by (simp_all add: advance_mounted_early mounted_fields timeout_runs_def)
next
  assume a: "mid \<noteq> [] \<and> tok \<noteq> []" and l: "20000 \<le> ms"
  show "peerStatus (advance ms (mounted mid tok u t0)) = StError"
    and "map peer_ident (peers (advance ms (mounted mid tok u t0))) =
           [user_id u, suffixed_id (user_id u) (t0 + 20000)]"
    and "peer (advance ms (mounted mid tok u t0)) = Some 1"
    and "timers (advance ms (mounted mid tok u t0)) = []"
    and "timeout_runs (advance ms (mounted mid tok u t0)) = 1"
    and "peerStatus (advance ms (step PeerLost (mounted mid tok u t0))) = StConnecting"
    and "map peer_ident (peers (advance ms (step PeerLost (mounted mid tok u t0)))) = [user_id u]"
    using a l by (simp_all add: advance_mounted_late advance_mounted_lost)
qed

lemma mounted_ana_eq: "mounted_ana = mounted (ascii ''m1'') (ascii ''tok'') ana 0"
  by (simp add: mounted_ana_def mounted_def)

theorem connection_timeout_spec_witness:
  "ascii ''m1'' \<noteq> [] \<and> ascii ''tok'' \<noteq> [] \<and> (19999::nat) < 20000 \<and> (20000::nat) \<le> 20000
   \<and> peerStatus (advance 19999 (mounted (ascii ''m1'') (ascii ''tok'') ana 0)) = StConnecting
   \<and> peerStatus (advance 20000 (mounted (ascii ''m1'') (ascii ''tok'') ana 0)) = StError
   \<and> map peer_ident (peers (advance 20000 (mounted (ascii ''m1'') (ascii ''tok'') ana 0))) =
       [ascii ''u1'', ascii ''u1_20000'']
   \<and> \<not> timeout_pending
         (run [Advance 60000] (step PeerOpen (run [Advance 5000] (mounted (ascii ''m1'') (ascii ''tok'') ana 0))))
   \<and> timeout_runs
         (run [Advance 60000] (step PeerOpen (run [Advance 5000] (mounted (ascii ''m1'') (ascii ''tok'') ana 0))))
       = 0"
proof -
  have h: "ascii ''m1'' \<noteq> [] \<and> ascii ''tok'' \<noteq> []"
    by (simp add: ascii_def)
  have r: "timeout_runs (run [Advance 5000] (mounted (ascii ''m1'') (ascii ''tok'') ana 0)) = 0"
    using h by (simp add: step_def advance_mounted_early mounted_fields timeout_runs_def)
  show ?thesis
    using h r
      connection_timeout_spec [where mid = "ascii ''m1''" and tok = "ascii ''tok''" and u = ana
        and ?t0.0 = 0 and ms = 19999 and ?es1.0 = "[Advance 5000]" and ?es2.0 = "[Advance 60000]"]
      connection_timeout_spec [where mid = "ascii ''m1''" and tok = "ascii ''tok''" and u = ana
        and ?t0.0 = 0 and ms = 20000 and ?es1.0 = "[Advance 5000]" and ?es2.0 = "[Advance 60000]"]
    by (simp add: suffixed_u1 ana_def)
qed

text \<open>
  The claim as the specification states it fails: 20 seconds after the main effect ran, the
  replacement peer already exists and nothing is pending, so the new attempt does not wait ten
  seconds after the error.
\<close>

theorem connection_timeout_counterexample:
  "peerStatus (advance 20000 mounted_ana) = StError
   \<and> now (advance 20000 mounted_ana) = 20000
   \<and> map peer_ident (peers (advance 20000 mounted_ana)) = [ascii ''u1'', ascii ''u1_20000'']
   \<and> timers (advance 20000 mounted_ana) = []"
proof -
  have h: "ascii ''m1'' \<noteq> []" "ascii ''tok'' \<noteq> []"
    by (simp_all add: ascii_def)
  show ?thesis
    unfolding mounted_ana_eq
    using advance_mounted_late [OF h, of 20000 ana 0]
    by (simp add: suffixed_u1 ana_def)
qed

subsection \<open>Joining the meeting on \<^verbatim>\<open>connect\<close>\<close>

lemma lib_frame_join:
  "hasJoined (alert m s) = hasJoined s"
  "chat_out (alert m s) = chat_out s"
  "hasJoined (navigate pa s) = hasJoined s"
  "chat_out (navigate pa s) = chat_out s"
  "hasJoined (emit_voice ve s) = hasJoined s"
  "chat_out (emit_voice ve s) = chat_out s"
  "hasJoined (fetch hc s) = hasJoined s"
  "chat_out (fetch hc s) = chat_out s"
  "hasJoined (new_Peer i s) = hasJoined s"
  "chat_out (new_Peer i s) = chat_out s"
  "hasJoined (peer_destroy p s) = hasJoined s"
  "chat_out (peer_destroy p s) = chat_out s"
  "hasJoined (call_close c s) = hasJoined s"
  "chat_out (call_close c s) = chat_out s"
  "hasJoined (call_answer c st s) = hasJoined s"
  "chat_out (call_answer c st s) = chat_out s"
  "hasJoined (new_stream gc s) = hasJoined s"
  "chat_out (new_stream gc s) = chat_out s"
  "hasJoined (stop_tracks st s) = hasJoined s"
  "chat_out (stop_tracks st s) = chat_out s"
  "hasJoined (getUserMedia gc s) = hasJoined s"
  "chat_out (getUserMedia gc s) = chat_out s"
  "hasJoined (setTimeout task ms s) = hasJoined s"
  "chat_out (setTimeout task ms s) = chat_out s"
  "hasJoined (clearTimeout h s) = hasJoined s"
  "chat_out (clearTimeout h s) = chat_out s"
  "hasJoined (emit_chat ce s) = hasJoined s"
  "chat_out (emit_chat ce s) = chat_out s @ [ce]"
  by (simp_all add: lib_defs split: option.splits)

lemma close_all_calls_join:
  "hasJoined (close_all_calls s) = hasJoined s" "chat_out (close_all_calls s) = chat_out s"
  by (simp_all add: close_all_calls_def fold_frame lib_frame_join)

lemma handleConnect_join:
  "hasJoined (handleConnect s) = hasJoined s \<and> chat_out (handleConnect s) = chat_out s
   \<or> \<not> hasJoined s \<and> hasJoined (handleConnect s)
       \<and> joins_emitted (handleConnect s) = Suc (joins_emitted s)"
  by (simp add: handleConnect_def joins_emitted_def lib_frame_join split: option.splits)

lemma main_event_join:
  "e \<noteq> ChatConnect \<Longrightarrow>
   hasJoined (main_event e s) = hasJoined s \<and> chat_out (main_event e s) = chat_out s"
  by (cases e; simp add: main_event_def handler_defs lib_frame_join Let_def
        split: option.splits)

lemma media_join:
  "hasJoined (fst (ensureMedia_start s)) = hasJoined s"
  "chat_out (fst (ensureMedia_start s)) = chat_out s"
  "hasJoined (ensureMedia_resume k outcome m s) = hasJoined s"
  "chat_out (ensureMedia_resume k outcome m s) = chat_out s"
  "hasJoined (requestMicrophonePermission_resume outcome s) = hasJoined s"
  "chat_out (requestMicrophonePermission_resume outcome s) = chat_out s"
  by (simp_all add: ensureMedia_start_def ensureMedia_resume_def
        requestMicrophonePermission_resume_def Let_def lib_frame_join
        split: option.splits gum_outcome.splits gum_cont.splits)

lemma media_effect_join:
  "hasJoined (fst (media_effect s)) = hasJoined s"
  "chat_out (fst (media_effect s)) = chat_out s"
  by (simp_all add: media_effect_def Let_def media_join close_all_calls_join
        join_voice_room_def lib_frame_join split: option.splits)

lemma controls_join:
  "hasJoined (sendMessage s) = hasJoined s"
  "filter is_join (chat_out (sendMessage s)) = filter is_join (chat_out s)"
  "hasJoined (hangup b s) = hasJoined s"
  "filter is_join (chat_out (hangup b s)) = filter is_join (chat_out s)"
  by (simp_all add: sendMessage_def hangup_def Let_def lib_frame_join split: option.splits)

lemma unmount_join:
  "hasJoined (unmount s) = hasJoined s" "chat_out (unmount s) = chat_out s"
  by (simp_all add: unmount_def unmount_cleanup_def main_cleanup_def Let_def
        close_all_calls_join lib_frame_join split: option.splits)

lemma call_peer_cb_join:
  "hasJoined (call_peer_cb r s) = hasJoined s" "chat_out (call_peer_cb r s) = chat_out s"
  by (simp_all add: call_peer_cb_def initiateCall_def peer_call_def split: option.splits)

lemma run_task_join:
  "hasJoined (run_task task s) = hasJoined s" "chat_out (run_task task s) = chat_out s"
  by (cases task;
      simp add: run_task_def connection_timeout_cb_def replace_peer_def reconnect_cb_def
        join_voice_room_def call_peers_cb_def fold_frame call_peer_cb_join lib_frame_join
        peer_reconnect_def split: option.splits)+

lemma run_timers_join:
  "hasJoined (run_timers limit s) = hasJoined s \<and> chat_out (run_timers limit s) = chat_out s"
proof (induction limit s rule: run_timers.induct)
  case (1 limit s)
  show ?case
  proof (cases "next_due (timers s) limit")
    case None
    then show ?thesis by (simp add: run_timers.simps [of limit s])
  next
    case (Some t)
    then show ?thesis
      using "1.IH" [OF Some] by (simp add: run_timers.simps [of limit s] run_task_join)
  qed
qed

text \<open>
  Only \<^verbatim>\<open>connect\<close> touches \<^verbatim>\<open>hasJoined\<close> or emits \<^verbatim>\<open>join-meeting\<close>, and it either emits
  one \<^verbatim>\<open>join-meeting\<close> and sets the flag that was not set, or does neither.
\<close>

lemma step_join_other:
  "e \<noteq> ChatConnect \<Longrightarrow>
   hasJoined (step e s) = hasJoined s \<and> joins_emitted (step e s) = joins_emitted s"
  by (cases e;
      simp add: step_def main_event_join advance_def run_timers_join media_join
        media_effect_join controls_join unmount_join joins_emitted_def
        toggleChat_def toggleCamera_def toggleMic_def)

lemma step_join_connect:
  "hasJoined (step ChatConnect s) = hasJoined s
     \<and> joins_emitted (step ChatConnect s) = joins_emitted s
   \<or> \<not> hasJoined s \<and> hasJoined (step ChatConnect s)
       \<and> joins_emitted (step ChatConnect s) = Suc (joins_emitted s)"
  using handleConnect_join [of s]
  by (auto simp add: step_def main_event_def joins_emitted_def)

lemma step_join_once: "join_once s \<Longrightarrow> join_once (step e s)"
proof (cases "e = ChatConnect")
  case True
  assume "join_once s"
  then show ?thesis
    using step_join_connect [of s] True by (auto simp add: join_once_def split: if_splits)
next
  case False
  assume "join_once s"
  then show ?thesis
    using step_join_other [OF False, of s] by (simp add: join_once_def)
qed

lemma run_join_once: "join_once s \<Longrightarrow> join_once (run es s)"
  by (induction es arbitrary: s) (simp_all add: step_join_once)

lemma step_hasJoined: "hasJoined s \<Longrightarrow> hasJoined (step e s)"
proof (cases "e = ChatConnect")
  case True
  assume "hasJoined s"
  then show ?thesis
    using step_join_connect [of s] True by auto
next
  case False
  assume "hasJoined s"
  then show ?thesis
    using step_join_other [OF False, of s] by simp
qed

lemma run_hasJoined: "hasJoined s \<Longrightarrow> hasJoined (run es s)"
  by (induction es arbitrary: s) (simp_all add: step_hasJoined)

text \<open>A run of \<^verbatim>\<open>connect\<close> events and drops of the chat socket of a mounted component.\<close>

lemma step_dropped: "step ChatDropped s = s"
  by (simp add: step_def main_event_def)

lemma step_connect_joined:
  "newPeer s \<noteq> None \<Longrightarrow> hasJoined s \<Longrightarrow> step ChatConnect s = s"
  by (simp add: step_def main_event_def handleConnect_def split: option.splits)

lemma step_connect_first:
  "newPeer s \<noteq> None \<Longrightarrow> handleConnect_on s \<Longrightarrow> user s = Some u \<Longrightarrow> \<not> hasJoined s \<Longrightarrow>
   step ChatConnect s =
     s\<lparr>chat_out := chat_out s @ [JoinMeeting (meetingId s) (user_id u) (user_name u)],
       hasJoined := True\<rparr>"
  by (simp add: step_def main_event_def handleConnect_def emit_chat_def)

lemma connects_run_joined:
  "set cs \<subseteq> {ChatConnect, ChatDropped} \<Longrightarrow> newPeer s \<noteq> None \<Longrightarrow> hasJoined s \<Longrightarrow>
   run cs s = s"
proof (induction cs)
  case Nil
  then show ?case by simp
next
  case (Cons c cs)
  have "c = ChatConnect \<or> c = ChatDropped"
    using Cons.prems(1) by simp
  then have "step c s = s"
    using Cons.prems(2,3) step_dropped step_connect_joined by metis
  then show ?case
    using Cons by simp
qed

lemma connects_run:
  assumes "set cs \<subseteq> {ChatConnect, ChatDropped}" and "ChatConnect \<in> set cs"
    and "newPeer s \<noteq> None" and "handleConnect_on s" and "user s = Some u"
    and "\<not> hasJoined s"
  shows "run cs s = step ChatConnect s"
  using assms(1,2)
proof (induction cs)
  case Nil
  then show ?case by simp
next
  case (Cons c cs)
  have sub: "set cs \<subseteq> {ChatConnect, ChatDropped}"
    using Cons.prems(1) by simp
  have joined: "hasJoined (step ChatConnect s)" and np: "newPeer (step ChatConnect s) \<noteq> None"
    using assms(3) by (simp_all add: step_connect_first [OF assms(3,4,5,6)])
  show ?case
  proof (cases "c = ChatConnect")
    case True
    have "run cs (step ChatConnect s) = step ChatConnect s"
      using sub np joined by (rule connects_run_joined)
    then show ?thesis
      using True by simp
  next
    case False
    then have c: "c = ChatDropped"
      using Cons.prems(1) by simp
    then have "ChatConnect \<in> set cs"
      using Cons.prems(2) by simp
    then have "run cs s = step ChatConnect s"
      using Cons.IH sub by blast
    then show ?thesis
      unfolding c by (simp only: run.simps step_dropped)
  qed
qed

lemma mounted_join_fields:
  assumes "mid \<noteq> []" and "tok \<noteq> []"
  shows "chat_out (mounted mid tok u t0) = []"
    and "\<not> hasJoined (mounted mid tok u t0)"
    and "handleConnect_on (mounted mid tok u t0)"
    and "meetingId (mounted mid tok u t0) = Some mid"
  using assms
  by (simp_all add: mounted_def main_effect_def initial_def Let_def fetch_def setTimeout_def
        new_Peer_def)

lemma connects_mounted:
  assumes "mid \<noteq> []" and "tok \<noteq> []"
    and "set cs \<subseteq> {ChatConnect, ChatDropped}" and "ChatConnect \<in> set cs"
  shows "chat_out (run cs (mounted mid tok u t0)) = [JoinMeeting (Some mid) (user_id u) (user_name u)]"
    and "hasJoined (run cs (mounted mid tok u t0))"
proof -
  let ?m = "mounted mid tok u t0"
  have np: "newPeer ?m \<noteq> None" and us: "user ?m = Some u"
    using assms(1,2) by (simp_all add: mounted_fields)
  have on: "handleConnect_on ?m"
    using assms(1,2) by (simp add: mounted_join_fields)
  have nj: "\<not> hasJoined ?m"
    using assms(1,2) by (simp add: mounted_join_fields)
  have "run cs ?m = step ChatConnect ?m"
    using assms(3,4) np on us nj by (rule connects_run)
  then have eq: "run cs ?m =
      ?m\<lparr>chat_out := chat_out ?m @ [JoinMeeting (meetingId ?m) (user_id u) (user_name u)],
         hasJoined := True\<rparr>"
    by (simp only: step_connect_first [OF np on us nj])
  show "chat_out (run cs ?m) = [JoinMeeting (Some mid) (user_id u) (user_name u)]"
    and "hasJoined (run cs ?m)"
    unfolding eq using assms(1,2) by (simp_all add: mounted_join_fields)
qed

text \<open>
  Claim C7, as the code has it. After the main effect ran, whatever events follow, one
  \<^verbatim>\<open>join-meeting\<close> has been emitted when \<^verbatim>\<open>hasJoined\<close> is set and none before; once the flag
  is set no event resets it, so no second \<^verbatim>\<open>join-meeting\<close> is ever emitted. Over a run of
  \<^verbatim>\<open>connect\<close> events and drops of the chat socket with at least one \<^verbatim>\<open>connect\<close>, exactly one
  \<^verbatim>\<open>join-meeting\<close> is emitted, by the first \<^verbatim>\<open>connect\<close>; a reconnection emits none.
\<close>

theorem join_meeting_once:
  "mid \<noteq> [] \<and> tok \<noteq> [] \<longrightarrow>
     joins_emitted (run es (mounted mid tok u t0)) =
       (if hasJoined (run es (mounted mid tok u t0)) then 1 else 0)
     \<and> (hasJoined (run es (mounted mid tok u t0)) \<longrightarrow>
          hasJoined (run es' (run es (mounted mid tok u t0)))
          \<and> joins_emitted (run es' (run es (mounted mid tok u t0))) = 1)
     \<and> (set cs \<subseteq> {ChatConnect, ChatDropped} \<and> ChatConnect \<in> set cs \<longrightarrow>
          chat_out (run cs (mounted mid tok u t0)) =
            [JoinMeeting (Some mid) (user_id u) (user_name u)]
          \<and> hasJoined (run cs (mounted mid tok u t0)))"
proof (intro impI conjI)
  assume a: "mid \<noteq> [] \<and> tok \<noteq> []"
  let ?m = "mounted mid tok u t0"
  have "join_once ?m"
    using a by (simp add: join_once_def joins_emitted_def mounted_join_fields)
  then have once: "join_once (run es ?m)"
    by (rule run_join_once)
  then show "joins_emitted (run es ?m) = (if hasJoined (run es ?m) then 1 else 0)"
    by (simp add: join_once_def)
  {
    assume h: "hasJoined (run es ?m)"
    show "hasJoined (run es' (run es ?m))"
      using h by (rule run_hasJoined)
    then show "joins_emitted (run es' (run es ?m)) = 1"
      using run_join_once [OF once, of es'] by (simp add: join_once_def)
  }
next
  assume a: "mid \<noteq> [] \<and> tok \<noteq> []"
    and c: "set cs \<subseteq> {ChatConnect, ChatDropped} \<and> ChatConnect \<in> set cs"
  show "chat_out (run cs (mounted mid tok u t0)) = [JoinMeeting (Some mid) (user_id u) (user_name u)]"
    and "hasJoined (run cs (mounted mid tok u t0))"
    using a c by (simp_all add: connects_mounted)
qed

theorem join_meeting_once_witness:
  "ascii ''m1'' \<noteq> [] \<and> ascii ''tok'' \<noteq> []
   \<and> hasJoined (run [ChatConnect] (mounted (ascii ''m1'') (ascii ''tok'') ana 0))
   \<and> joins_emitted (run [ChatDropped, ChatConnect, SubmitChat]
        (run [ChatConnect] (mounted (ascii ''m1'') (ascii ''tok'') ana 0))) = 1
   \<and> set [ChatConnect, ChatDropped, ChatConnect] \<subseteq> {ChatConnect, ChatDropped}
   \<and> ChatConnect \<in> set [ChatConnect, ChatDropped, ChatConnect]
   \<and> chat_out (run [ChatConnect, ChatDropped, ChatConnect] (mounted (ascii ''m1'') (ascii ''tok'') ana 0)) =
       [JoinMeeting (Some (ascii ''m1'')) (ascii ''u1'') (ascii ''Ana'')]"
proof -
  have h: "ascii ''m1'' \<noteq> []" "ascii ''tok'' \<noteq> []"
    by (simp_all add: ascii_def)
  have j: "hasJoined (run [ChatConnect] (mounted (ascii ''m1'') (ascii ''tok'') ana 0))"
    using connects_mounted(2) [OF h, of "[ChatConnect]" ana 0] by simp
  show ?thesis
    using h j
      join_meeting_once [where mid = "ascii ''m1''" and tok = "ascii ''tok''" and u = ana
        and ?t0.0 = 0 and es = "[ChatConnect]" and es' = "[ChatDropped, ChatConnect, SubmitChat]"
        and cs = "[ChatConnect, ChatDropped, ChatConnect]"]
    by (simp add: ana_def)
qed

text \<open>
  The claim as the specification states it fails: after a drop of the chat socket and the
  \<^verbatim>\<open>connect\<close> of the reconnection, the flag is still set and one \<^verbatim>\<open>join-meeting\<close> has been
  emitted in all, not two.
\<close>

theorem join_meeting_counterexample:
  "hasJoined (run [ChatConnect, ChatDropped] mounted_ana)
   \<and> chat_out (run [ChatConnect, ChatDropped, ChatConnect] mounted_ana) =
       [JoinMeeting (Some (ascii ''m1'')) (ascii ''u1'') (ascii ''Ana'')]"
proof -
  have h: "ascii ''m1'' \<noteq> []" "ascii ''tok'' \<noteq> []"
    by (simp_all add: ascii_def)
  show ?thesis
    unfolding mounted_ana_eq
    using connects_mounted(2) [OF h, of "[ChatConnect, ChatDropped]" ana 0]
      connects_mounted(1) [OF h, of "[ChatConnect, ChatDropped, ChatConnect]" ana 0]
    by (simp add: ana_def)
qed

subsection \<open>The call map\<close>

lemma lib_frame_calls:
  "peerCallsRef (alert m s) = peerCallsRef s"
  "calls (alert m s) = calls s"
  "peerCallsRef (navigate pa s) = peerCallsRef s"
  "calls (navigate pa s) = calls s"
  "peerCallsRef (emit_chat ce s) = peerCallsRef s"
  "calls (emit_chat ce s) = calls s"
  "peerCallsRef (emit_voice ve s) = peerCallsRef s"
  "calls (emit_voice ve s) = calls s"
  "peerCallsRef (fetch hc s) = peerCallsRef s"
  "calls (fetch hc s) = calls s"
  "peerCallsRef (new_Peer i s) = peerCallsRef s"
  "calls (new_Peer i s) = calls s"
  "peerCallsRef (peer_destroy p s) = peerCallsRef s"
  "calls (peer_destroy p s) = calls s"
  "peerCallsRef (new_stream gc s) = peerCallsRef s"
  "calls (new_stream gc s) = calls s"
  "peerCallsRef (stop_tracks st s) = peerCallsRef s"
  "calls (stop_tracks st s) = calls s"
  "peerCallsRef (getUserMedia gc s) = peerCallsRef s"
  "calls (getUserMedia gc s) = calls s"
  "peerCallsRef (setTimeout task ms s) = peerCallsRef s"
  "calls (setTimeout task ms s) = calls s"
  "peerCallsRef (clearTimeout h s) = peerCallsRef s"
  "calls (clearTimeout h s) = calls s"
  "peerCallsRef (call_close c s) = peerCallsRef s"
  "length (calls (call_close c s)) = length (calls s)"
  "peerCallsRef (call_answer c st s) = peerCallsRef s"
  "length (calls (call_answer c st s)) = length (calls s)"
  by (simp_all add: lib_defs split: option.splits)

lemma fold_invariant: "(\<And>x s. P s \<Longrightarrow> P (g x s)) \<Longrightarrow> P s \<Longrightarrow> P (fold g xs s)"
  by (induction xs arbitrary: s) simp_all

lemma update_values: "snd ` set (AList.update k v al) \<subseteq> insert v (snd ` set al)"
  by (induction al) auto

lemma delete_values: "snd ` set (AList.delete k al) \<subseteq> snd ` set al"
  by (induction al) auto

lemma tracked_ok_same:
  "peerCallsRef s' = peerCallsRef s \<Longrightarrow> length (calls s) \<le> length (calls s') \<Longrightarrow>
   tracked_ok s \<Longrightarrow> tracked_ok s'"
  by (auto simp add: tracked_ok_def list_all_iff)

lemma tracked_ok_update:
  assumes "tracked_ok s" and "peerCallsRef s' = AList.update k c (peerCallsRef s)"
    and "c < length (calls s')" and "length (calls s) \<le> length (calls s')"
  shows "tracked_ok s'"
proof -
  have "distinct (map fst (peerCallsRef s'))"
    using assms(1,2) by (simp add: tracked_ok_def distinct_update)
  moreover have "\<forall>kc \<in> set (peerCallsRef s'). snd kc < length (calls s')"
  proof
    fix kc
    assume "kc \<in> set (peerCallsRef s')"
    then have "snd kc \<in> insert c (snd ` set (peerCallsRef s))"
      using update_values [of k c "peerCallsRef s"] assms(2) by auto
    then show "snd kc < length (calls s')"
      using assms(1,3,4) by (auto simp add: tracked_ok_def list_all_iff)
  qed
  ultimately show ?thesis
    by (simp add: tracked_ok_def list_all_iff)
qed

lemma tracked_ok_delete:
  assumes "tracked_ok s" and "peerCallsRef s' = AList.delete k (peerCallsRef s)"
    and "length (calls s) \<le> length (calls s')"
  shows "tracked_ok s'"
proof -
  have "distinct (map fst (peerCallsRef s'))"
    using assms(1,2) by (simp add: tracked_ok_def distinct_delete)
  moreover have "\<forall>kc \<in> set (peerCallsRef s'). snd kc < length (calls s')"
  proof
    fix kc
    assume "kc \<in> set (peerCallsRef s')"
    then have "snd kc \<in> snd ` set (peerCallsRef s)"
      using delete_values [of k "peerCallsRef s"] assms(2) by auto
    then show "snd kc < length (calls s')"
      using assms(1,3) by (auto simp add: tracked_ok_def list_all_iff)
  qed
  ultimately show ?thesis
    by (simp add: tracked_ok_def list_all_iff)
qed

lemma tracked_ok_clear: "peerCallsRef s' = [] \<Longrightarrow> tracked_ok s'"
  by (simp add: tracked_ok_def)

lemma initiateCall_cases:
  "peerCallsRef (initiateCall p remote s) = peerCallsRef s
     \<and> calls (initiateCall p remote s) = calls s
   \<or> (\<exists>st. mediaStreamRef s = Some st
         \<and> peerCallsRef (initiateCall p remote s) =
             AList.update remote (length (calls s)) (peerCallsRef s)
         \<and> calls (initiateCall p remote s) =
             calls s @ [\<lparr>call_peer = remote, call_stream = Some st, call_closed = False\<rparr>])"
  by (simp add: initiateCall_def peer_call_def split: option.splits)

lemma initiateCall_tracked: "tracked_ok s \<Longrightarrow> tracked_ok (initiateCall p remote s)"
proof -
  assume ok: "tracked_ok s"
  from initiateCall_cases [of p remote s] show ?thesis
  proof
    assume "peerCallsRef (initiateCall p remote s) = peerCallsRef s
     \<and> calls (initiateCall p remote s) = calls s"
    then show ?thesis using ok by (simp add: tracked_ok_def)
  next
    assume "\<exists>st. mediaStreamRef s = Some st
         \<and> peerCallsRef (initiateCall p remote s) =
             AList.update remote (length (calls s)) (peerCallsRef s)
         \<and> calls (initiateCall p remote s) =
             calls s @ [\<lparr>call_peer = remote, call_stream = Some st, call_closed = False\<rparr>]"
    then obtain st where
      u: "peerCallsRef (initiateCall p remote s) =
            AList.update remote (length (calls s)) (peerCallsRef s)"
      and c: "calls (initiateCall p remote s) =
            calls s @ [\<lparr>call_peer = remote, call_stream = Some st, call_closed = False\<rparr>]"
      by blast
    show ?thesis
      using ok u by (rule tracked_ok_update) (simp_all add: c)
  qed
qed

lemma call_peer_cb_tracked: "tracked_ok s \<Longrightarrow> tracked_ok (call_peer_cb remote s)"
  by (simp add: call_peer_cb_def initiateCall_tracked split: option.splits)

lemma peer_reconnect_calls:
  "peer_reconnect p s = Some s' \<Longrightarrow> peerCallsRef s' = peerCallsRef s \<and> calls s' = calls s"
  by (auto simp add: peer_reconnect_def split: option.splits if_splits)

lemma reconnect_cb_calls:
  "peerCallsRef (reconnect_cb s) = peerCallsRef s" "calls (reconnect_cb s) = calls s"
  by (simp_all add: reconnect_cb_def peer_reconnect_def replace_peer_def lib_frame_calls
        split: option.splits)

lemma run_task_calls:
  "task = ConnectionTimeout \<or> task = NavigateRealtime \<or> task = JoinVoiceRoomLater
     \<or> task = ReconnectLater \<Longrightarrow>
   peerCallsRef (run_task task s) = peerCallsRef s \<and> calls (run_task task s) = calls s"
  by (auto simp add: run_task_def connection_timeout_cb_def reconnect_cb_calls replace_peer_def
        join_voice_room_def lib_frame_calls split: option.splits)

lemma run_task_tracked: "tracked_ok s \<Longrightarrow> tracked_ok (run_task task s)"
proof (cases task)
  case (CallPeersLater remotes)
  assume "tracked_ok s"
  then show ?thesis
    using CallPeersLater
    by (simp add: run_task_def call_peers_cb_def fold_invariant call_peer_cb_tracked)
next
  case (CallPeerLater remote)
  assume "tracked_ok s"
  then show ?thesis
    using CallPeerLater by (simp add: run_task_def call_peer_cb_tracked)
qed (use run_task_calls [of task s] in \<open>simp_all add: tracked_ok_def\<close>)

lemma run_timers_tracked: "tracked_ok s \<Longrightarrow> tracked_ok (run_timers limit s)"
proof (induction limit s rule: run_timers.induct)
  case (1 limit s)
  show ?case
  proof (cases "next_due (timers s) limit")
    case None
    then show ?thesis
      using "1.prems" by (simp add: run_timers.simps [of limit s] tracked_ok_def)
  next
    case (Some t)
    let ?s0 = "s\<lparr>timers := remove1 t (timers s), now := max (now s) (t_due t),
                  fired := fired s @ [t]\<rparr>"
    have "tracked_ok ?s0"
      using "1.prems" by (simp add: tracked_ok_def)
    then have "tracked_ok (run_task (t_task t) ?s0)"
      by (rule run_task_tracked)
    then have "tracked_ok (run_timers limit (run_task (t_task t) ?s0))"
      using "1.IH" [OF Some] by simp
    then show ?thesis
      using Some by (simp add: run_timers.simps [of limit s])
  qed
qed

lemma incoming_call_cases:
  "peerCallsRef (incoming_call remote s) = peerCallsRef s
   \<or> peerCallsRef (incoming_call remote s) =
       AList.update remote (length (calls s)) (peerCallsRef s)"
  "length (calls (incoming_call remote s)) = Suc (length (calls s))"
  by (simp_all add: incoming_call_def on_call_def at_def lib_frame_calls split: option.splits)

lemma on_call_tracked: "tracked_ok s \<Longrightarrow> tracked_ok (incoming_call remote s)"
proof -
  assume ok: "tracked_ok s"
  from incoming_call_cases(1) [of remote s] show ?thesis
  proof
    assume same: "peerCallsRef (incoming_call remote s) = peerCallsRef s"
    show ?thesis
      using tracked_ok_same [OF same _ ok] by (simp add: incoming_call_cases(2))
  next
    assume u: "peerCallsRef (incoming_call remote s) =
       AList.update remote (length (calls s)) (peerCallsRef s)"
    show ?thesis
      using ok u by (rule tracked_ok_update) (simp_all add: incoming_call_cases(2))
  qed
qed

lemma main_event_calls:
  "(\<forall>r. e \<noteq> PeerDisconnected r \<and> e \<noteq> IncomingCall r \<and> e \<noteq> OutgoingCallClosed r) \<Longrightarrow>
   peerCallsRef (main_event e s) = peerCallsRef s \<and> calls (main_event e s) = calls s"
  by (cases e; simp add: main_event_def handler_defs lib_frame_calls Let_def
        split: option.splits)

lemma main_event_tracked: "tracked_ok s \<Longrightarrow> tracked_ok (main_event e s)"
proof -
  assume ok: "tracked_ok s"
  consider (disc) r where "e = PeerDisconnected r" | (inc) r where "e = IncomingCall r"
    | (closed) r where "e = OutgoingCallClosed r"
    | (other) "\<forall>r. e \<noteq> PeerDisconnected r \<and> e \<noteq> IncomingCall r \<and> e \<noteq> OutgoingCallClosed r"
    by blast
  then show ?thesis
  proof cases
    case disc
    show ?thesis
    proof (cases "map_of (peerCallsRef s) r")
      case None
      then show ?thesis
        using ok disc by (simp add: main_event_def on_peer_disconnected_def)
    next
      case (Some c)
      have "tracked_ok ((call_close c s)\<lparr>peerCallsRef := AList.delete r (peerCallsRef s)\<rparr>)"
        using ok by (rule tracked_ok_delete) (simp_all add: lib_frame_calls)
      then show ?thesis
        using Some disc by (simp add: main_event_def on_peer_disconnected_def)
    qed
  next
    case inc
    then show ?thesis
      using ok by (simp add: main_event_def on_call_tracked)
  next
    case closed
    have "tracked_ok (s\<lparr>peerCallsRef := AList.delete r (peerCallsRef s)\<rparr>)"
      using ok by (rule tracked_ok_delete) simp_all
    then show ?thesis
      using closed by (simp add: main_event_def on_outgoing_call_closed_def)
  next
    case other
    show ?thesis
      using main_event_calls [OF other, of s] ok by (simp add: tracked_ok_def)
  qed
qed

lemma media_calls:
  "peerCallsRef (fst (ensureMedia_start s)) = peerCallsRef s"
  "calls (fst (ensureMedia_start s)) = calls s"
  "peerCallsRef (ensureMedia_resume k outcome m s) = peerCallsRef s"
  "calls (ensureMedia_resume k outcome m s) = calls s"
  "peerCallsRef (requestMicrophonePermission_resume outcome s) = peerCallsRef s"
  "calls (requestMicrophonePermission_resume outcome s) = calls s"
  by (simp_all add: ensureMedia_start_def ensureMedia_resume_def
        requestMicrophonePermission_resume_def Let_def lib_frame_calls
        split: option.splits gum_outcome.splits gum_cont.splits)

lemma controls_calls:
  "peerCallsRef (sendMessage s) = peerCallsRef s"
  "calls (sendMessage s) = calls s"
  "peerCallsRef (hangup b s) = peerCallsRef s"
  "calls (hangup b s) = calls s"
  by (simp_all add: sendMessage_def hangup_def Let_def lib_frame_calls split: option.splits)

lemma media_effect_tracked: "tracked_ok s \<Longrightarrow> tracked_ok (fst (media_effect s))"
proof -
  assume ok: "tracked_ok s"
  have "peerCallsRef (fst (media_effect s)) = []
      \<or> peerCallsRef (fst (media_effect s)) = peerCallsRef s
          \<and> calls (fst (media_effect s)) = calls s"
    by (simp add: media_effect_def Let_def close_all_calls_def join_voice_room_def
          media_calls lib_frame_calls split: option.splits)
  then show ?thesis
    using ok by (auto simp add: tracked_ok_def)
qed

lemma unmount_untracked: "peerCallsRef (unmount s) = []"
  by (simp add: unmount_def unmount_cleanup_def Let_def close_all_calls_def)

text \<open>No event gives the call map a second entry for a key or an entry for a missing call.\<close>

lemma step_tracked: "tracked_ok s \<Longrightarrow> tracked_ok (step e s)"
proof (cases e)
  case (Advance ms)
  assume "tracked_ok s"
  then show ?thesis
    using Advance by (simp add: step_def advance_def run_timers_tracked)
next
  case MediaEffect
  assume "tracked_ok s"
  then show ?thesis
    using MediaEffect by (simp add: step_def media_effect_tracked)
next
  case Unmount
  then show ?thesis
    by (simp add: step_def tracked_ok_def unmount_untracked)
qed (simp_all add: step_def main_event_tracked,
     simp_all add: tracked_ok_def media_calls controls_calls toggleChat_def toggleCamera_def
       toggleMic_def)

lemma run_tracked: "tracked_ok s \<Longrightarrow> tracked_ok (run es s)"
  by (induction es arbitrary: s) (simp_all add: step_tracked)

lemma initial_tracked: "tracked_ok (main_effect (initial mid tok u t0))"
  by (simp add: tracked_ok_def main_effect_def initial_def Let_def fetch_def setTimeout_def
        new_Peer_def split: option.splits)

lemma replaced_entry:
  assumes "map_of al k = Some old"
  shows "map_of (AList.update k v al) k = Some v"
    and "map fst (AList.update k v al) = map fst al"
proof -
  show "map_of (AList.update k v al) k = Some v"
    by (simp add: update_conv')
  have "k \<in> fst ` set al"
    using assms by (metis map_of_eq_None_iff option.distinct(1))
  then show "map fst (AList.update k v al) = map fst al"
    by (simp add: update_keys)
qed

text \<open>
  Claim C9. After the main effect and any events, the call map has one entry for each peer id
  and every call it tracks exists. When \<^verbatim>\<open>initiateCall\<close> places a call, or the \<^verbatim>\<open>call\<close>
  handler answers one, for a peer id that has an entry, the entry keeps its place and now
  holds the new call; the calls that existed are all as they were, so the call that was
  tracked has not been closed, and it is no longer the entry of that peer id.
\<close>

theorem call_map_spec:
  "tracked_ok (run es (main_effect (initial mid tok u t0)))
   \<and> (map_of (peerCallsRef s) remote = Some old \<and> old < length (calls s)
        \<and> mediaStreamRef s = Some st \<and> user s = Some x \<and> remote \<noteq> user_id x
        \<and> at (peers s) p = Some po \<and> \<not> disconnected po \<longrightarrow>
        map_of (peerCallsRef (initiateCall p remote s)) remote = Some (length (calls s))
        \<and> length (calls s) \<noteq> old
        \<and> map fst (peerCallsRef (initiateCall p remote s)) = map fst (peerCallsRef s)
        \<and> calls (initiateCall p remote s) =
            calls s @ [\<lparr>call_peer = remote, call_stream = Some st, call_closed = False\<rparr>])
   \<and> (map_of (peerCallsRef s) remote = Some old \<and> old < length (calls s)
        \<and> mediaStreamRef s = Some st \<and> micOn_main s \<and> remote \<noteq> [] \<longrightarrow>
        map_of (peerCallsRef (incoming_call remote s)) remote = Some (length (calls s))
        \<and> length (calls s) \<noteq> old
        \<and> map fst (peerCallsRef (incoming_call remote s)) = map fst (peerCallsRef s)
        \<and> calls (incoming_call remote s) =
            calls s @ [\<lparr>call_peer = remote, call_stream = Some st, call_closed = False\<rparr>])"
proof (intro conjI impI)
  show "tracked_ok (run es (main_effect (initial mid tok u t0)))"
    by (simp add: run_tracked initial_tracked)
next
  assume a: "map_of (peerCallsRef s) remote = Some old \<and> old < length (calls s)
        \<and> mediaStreamRef s = Some st \<and> user s = Some x \<and> remote \<noteq> user_id x
        \<and> at (peers s) p = Some po \<and> \<not> disconnected po"
  have pc: "peerCallsRef (initiateCall p remote s) =
      AList.update remote (length (calls s)) (peerCallsRef s)"
    using a by (simp add: initiateCall_def peer_call_def)
  show "calls (initiateCall p remote s) =
      calls s @ [\<lparr>call_peer = remote, call_stream = Some st, call_closed = False\<rparr>]"
    using a by (simp add: initiateCall_def peer_call_def)
  show "map_of (peerCallsRef (initiateCall p remote s)) remote = Some (length (calls s))"
    and "map fst (peerCallsRef (initiateCall p remote s)) = map fst (peerCallsRef s)"
    using a replaced_entry [of "peerCallsRef s" remote old "length (calls s)"]
    by (simp_all add: pc)
  show "length (calls s) \<noteq> old"
    using a by simp
next
  assume a: "map_of (peerCallsRef s) remote = Some old \<and> old < length (calls s)
        \<and> mediaStreamRef s = Some st \<and> micOn_main s \<and> remote \<noteq> []"
  have pc: "peerCallsRef (incoming_call remote s) =
      AList.update remote (length (calls s)) (peerCallsRef s)"
    using a by (simp add: incoming_call_def on_call_def at_def)
  show "calls (incoming_call remote s) =
      calls s @ [\<lparr>call_peer = remote, call_stream = Some st, call_closed = False\<rparr>]"
    using a by (simp add: incoming_call_def on_call_def at_def call_answer_def)
  show "map_of (peerCallsRef (incoming_call remote s)) remote = Some (length (calls s))"
    and "map fst (peerCallsRef (incoming_call remote s)) = map fst (peerCallsRef s)"
    using a replaced_entry [of "peerCallsRef s" remote old "length (calls s)"]
    by (simp_all add: pc)
  show "length (calls s) \<noteq> old"
    using a by simp
qed

lemma mounted_ana_peer:
  "newPeer mounted_ana = Some 0" "micOn_main mounted_ana"
  "peers mounted_ana =
     [\<lparr>peer_ident = ascii ''u1'', destroyed = False, disconnected = False, peer_opened = False\<rparr>]"
  "peerCallsRef mounted_ana = []" "calls mounted_ana = []" "streams mounted_ana = []"
  "mediaStreamRef mounted_ana = None"
  by (simp_all add: mounted_ana_def main_effect_def initial_def Let_def ana_def ascii_def
        fetch_def setTimeout_def new_Peer_def)

lemma with_stream_fields:
  "mediaStreamRef with_stream = Some 0"
  "streams with_stream = [[\<lparr>kind = AudioTrack, enabled = True, live = True\<rparr>]]"
  "newPeer with_stream = Some 0" "micOn_main with_stream" "user with_stream = Some ana"
  "peers with_stream =
     [\<lparr>peer_ident = ascii ''u1'', destroyed = False, disconnected = False, peer_opened = False\<rparr>]"
  "peerCallsRef with_stream = []" "calls with_stream = []"
  by (simp_all add: with_stream_def step_def ensureMedia_resume_def new_stream_def
        mounted_ana_peer mounted_ana_chat)

lemma in_call_fields:
  "peerCallsRef in_call = [(ascii ''u2'', 0)]"
  "calls in_call = [\<lparr>call_peer = ascii ''u2'', call_stream = Some 0, call_closed = False\<rparr>]"
  "mediaStreamRef in_call = Some 0" "user in_call = Some ana" "micOn_main in_call"
  "peers in_call =
     [\<lparr>peer_ident = ascii ''u1'', destroyed = False, disconnected = False, peer_opened = False\<rparr>]"
  by (simp_all add: in_call_def run_task_def call_peer_cb_def initiateCall_def peer_call_def
        at_def with_stream_fields ana_def ascii_def)

theorem call_map_spec_witness:
  "tracked_ok (run [IncomingCall (ascii ''u2''), Advance 1500]
                 (main_effect (initial (Some (ascii ''m1'')) (Some (ascii ''tok'')) (Some ana) 0)))
   \<and> map_of (peerCallsRef in_call) (ascii ''u2'') = Some 0 \<and> 0 < length (calls in_call)
   \<and> mediaStreamRef in_call = Some 0 \<and> user in_call = Some ana \<and> ascii ''u2'' \<noteq> user_id ana
   \<and> at (peers in_call) 0 =
       Some \<lparr>peer_ident = ascii ''u1'', destroyed = False, disconnected = False,
              peer_opened = False\<rparr>
   \<and> micOn_main in_call \<and> ascii ''u2'' \<noteq> []
   \<and> map_of (peerCallsRef (initiateCall 0 (ascii ''u2'') in_call)) (ascii ''u2'') = Some 1
   \<and> map fst (peerCallsRef (initiateCall 0 (ascii ''u2'') in_call)) = [ascii ''u2'']
   \<and> map call_closed (calls (initiateCall 0 (ascii ''u2'') in_call)) = [False, False]
   \<and> map_of (peerCallsRef (incoming_call (ascii ''u2'') in_call)) (ascii ''u2'') = Some 1
   \<and> map fst (peerCallsRef (incoming_call (ascii ''u2'') in_call)) = [ascii ''u2'']
   \<and> map call_closed (calls (incoming_call (ascii ''u2'') in_call)) = [False, False]"
proof -
  let ?po = "\<lparr>peer_ident = ascii ''u1'', destroyed = False, disconnected = False,
              peer_opened = False\<rparr>"
  have h: "map_of (peerCallsRef in_call) (ascii ''u2'') = Some 0 \<and> 0 < length (calls in_call)
      \<and> mediaStreamRef in_call = Some 0 \<and> user in_call = Some ana \<and> ascii ''u2'' \<noteq> user_id ana
      \<and> at (peers in_call) 0 = Some ?po \<and> \<not> disconnected ?po
      \<and> micOn_main in_call \<and> ascii ''u2'' \<noteq> []"
    by (simp add: in_call_fields at_def ana_def ascii_def)
  show ?thesis
    using h
      call_map_spec [where es = "[IncomingCall (ascii ''u2''), Advance 1500]"
        and mid = "Some (ascii ''m1'')" and tok = "Some (ascii ''tok'')" and u = "Some ana"
        and ?t0.0 = 0 and s = in_call and remote = "ascii ''u2''" and old = 0 and st = 0
        and x = ana and p = 0 and po = ?po]
    by (simp add: in_call_fields)
qed

subsection \<open>Teardown\<close>

lemma call_close_calls:
  "calls (call_close d s) =
     (if d < length (calls s) then (calls s)[d := (calls s ! d)\<lparr>call_closed := True\<rparr>]
      else calls s)"
  by (simp add: call_close_def at_def)

lemma call_close_closed:
  "c < length (calls s) \<Longrightarrow>
   call_closed (calls (call_close d s) ! c) = (c = d \<or> call_closed (calls s ! c))"
  by (auto simp add: call_close_calls nth_list_update)

lemma call_close_rest:
  "streams (call_close d s) = streams s" "peers (call_close d s) = peers s"
  "chat_disconnected (call_close d s) = chat_disconnected s"
  "voice_disconnected (call_close d s) = voice_disconnected s"
  "mediaStreamRef (call_close d s) = mediaStreamRef s"
  "length (calls (call_close d s)) = length (calls s)"
  by (simp_all add: call_close_def split: option.splits)

lemma fold_call_close_closed:
  "c < length (calls s) \<Longrightarrow>
   call_closed (calls (fold call_close cs s) ! c) = (c \<in> set cs \<or> call_closed (calls s ! c))"
proof (induction cs arbitrary: s)
  case Nil
  then show ?case by simp
next
  case (Cons d cs)
  have "c < length (calls (call_close d s))"
    using Cons.prems by (simp add: call_close_rest)
  then have "call_closed (calls (fold call_close cs (call_close d s)) ! c) =
      (c \<in> set cs \<or> call_closed (calls (call_close d s) ! c))"
    by (rule Cons.IH)
  then show ?case
    using Cons.prems by (auto simp add: call_close_closed)
qed


lemma close_all_calls_closed:
  "(k, c) \<in> set (peerCallsRef s) \<Longrightarrow> c < length (calls s) \<Longrightarrow>
   call_closed (calls (close_all_calls s) ! c)"
proof -
  assume "(k, c) \<in> set (peerCallsRef s)" and c: "c < length (calls s)"
  then have "c \<in> set (map snd (peerCallsRef s))"
    by force
  then show ?thesis
    using c by (simp add: close_all_calls_def fold_call_close_closed)
qed


lemma peer_destroy_rest:
  "streams (peer_destroy q s) = streams s" "calls (peer_destroy q s) = calls s"
  "peerCallsRef (peer_destroy q s) = peerCallsRef s"
  "chat_disconnected (peer_destroy q s) = chat_disconnected s"
  "voice_disconnected (peer_destroy q s) = voice_disconnected s"
  "mediaStreamRef (peer_destroy q s) = mediaStreamRef s"
  "socket (peer_destroy q s) = socket s" "voiceSocket (peer_destroy q s) = voiceSocket s"
  "peer (peer_destroy q s) = peer s"
  by (simp_all add: peer_destroy_def split: option.splits)


lemma stop_tracks_rest:
  "peers (stop_tracks st s) = peers s" "calls (stop_tracks st s) = calls s"
  "peerCallsRef (stop_tracks st s) = peerCallsRef s"
  "chat_disconnected (stop_tracks st s) = chat_disconnected s"
  "voice_disconnected (stop_tracks st s) = voice_disconnected s"
  "socket (stop_tracks st s) = socket s" "voiceSocket (stop_tracks st s) = voiceSocket s"
  "peer (stop_tracks st s) = peer s"
  by (simp_all add: stop_tracks_def split: option.splits)






lemma unmount_cleanup_closed:
  "(k, c) \<in> set (peerCallsRef s) \<Longrightarrow> c < length (calls s) \<Longrightarrow>
   call_closed (calls (unmount_cleanup s) ! c)"
proof -
  assume kc: "(k, c) \<in> set (peerCallsRef s)" and c: "c < length (calls s)"
  define s5 where
    "s5 = (let s1 = (case mediaStreamRef s of None \<Rightarrow> s | Some st \<Rightarrow> stop_tracks st s);
               s2 = s1\<lparr>mediaStreamRef := None\<rparr>;
               s3 = (if socket s2 then s2\<lparr>chat_disconnected := True\<rparr> else s2);
               s4 = (if voiceSocket s3 then s3\<lparr>voice_disconnected := True\<rparr> else s3)
           in (case peer s4 of None \<Rightarrow> s4 | Some p \<Rightarrow> peer_destroy p s4))"
  have eq: "unmount_cleanup s = close_all_calls s5"
    by (simp add: unmount_cleanup_def s5_def Let_def)
  have "peerCallsRef s5 = peerCallsRef s" and "calls s5 = calls s"
    by (simp_all add: s5_def Let_def peer_destroy_rest stop_tracks_rest split: option.splits)
  then show ?thesis
    using kc c by (simp add: eq close_all_calls_closed)
qed


subsection \<open>Local media\<close>

lemma set_first_enabled_shape:
  "map kind (set_first_enabled k b ts) = map kind ts"
  "map live (set_first_enabled k b ts) = map live ts"
  "length (set_first_enabled k b ts) = length ts"
  by (induction ts) simp_all

lemma first_track_set_first_enabled:
  "(first_track k' (set_first_enabled k b ts) = None) = (first_track k' ts = None)"
  by (induction ts) simp_all

lemma set_first_enabled_twice:
  "set_first_enabled k b (set_first_enabled k b' ts) = set_first_enabled k b ts"
  by (induction ts) simp_all

lemma set_first_enabled_swap:
  "k \<noteq> k' \<Longrightarrow>
   set_first_enabled k b (set_first_enabled k' b' ts) =
     set_first_enabled k' b' (set_first_enabled k b ts)"
  by (induction ts) auto

text \<open>A run of \<^verbatim>\<open>ensureMedia\<close> that finds a stream and has no video to add.\<close>

lemma ensureMedia_existing:
  assumes "mediaStreamRef s = Some cur" and "at (streams s) cur = Some ts"
    and "\<not> (cameraOn s \<and> first_track VideoTrack ts = None)"
  shows "ensureMedia outcome m s =
           s\<lparr>streams := (streams s)
                [cur := set_first_enabled AudioTrack (micOn s)
                          (set_first_enabled VideoTrack (cameraOn s) ts)]\<rparr>"
proof (cases "cameraOn s")
  case True
  then obtain y where "first_track VideoTrack ts = Some y"
    using assms(3) by auto
  then show ?thesis
    using assms(1,2) True by (simp add: ensureMedia_def ensureMedia_start_def Let_def)
next
  case False
  then show ?thesis
    using assms(1,2) by (simp add: ensureMedia_def ensureMedia_start_def Let_def)
qed

text \<open>A run of \<^verbatim>\<open>ensureMedia\<close> without a stream, the microphone on, granted while mounted.\<close>

lemma ensureMedia_fresh:
  assumes "mediaStreamRef s = None" and "micOn s"
  shows "ensureMedia Granted True s =
           s\<lparr>gum_log := gum_log s @ [(cameraOn s, True)],
             streams := streams s @
               [[\<lparr>kind = AudioTrack, enabled = True, live = True\<rparr>] @
                (if cameraOn s then [\<lparr>kind = VideoTrack, enabled = True, live = True\<rparr>] else [])],
             mediaStreamRef := Some (length (streams s))\<rparr>"
  using assms
  by (simp add: ensureMedia_def ensureMedia_start_def ensureMedia_resume_def Let_def
        getUserMedia_def new_stream_def)

lemma mounted_ana_media:
  "\<not> cameraOn mounted_ana" "micOn mounted_ana" "gum_log mounted_ana = []"
  by (simp_all add: mounted_ana_def main_effect_def initial_def Let_def ana_def ascii_def
        fetch_def setTimeout_def new_Peer_def)

lemma with_stream_media:
  "\<not> cameraOn with_stream" "micOn with_stream" "gum_log with_stream = []"
  by (simp_all add: with_stream_def step_def ensureMedia_resume_def new_stream_def
        mounted_ana_media)

subsection \<open>The permission request of the first effect\<close>

lemma permission_granted:
  "requestMicrophonePermission_resume Granted s =
     s\<lparr>streams := streams s @ [[\<lparr>kind = AudioTrack, enabled = True, live = False\<rparr>]],
       mediaStreamRef := Some (length (streams s)), micOn := True\<rparr>"
  by (simp add: requestMicrophonePermission_resume_def new_stream_def stop_tracks_def at_def)

text \<open>
  Claim C10, as the code has it. When the permission request is granted, the ref holds the
  new stream and its one track, an audio track, is stopped; the microphone is on. A run of
  \<^verbatim>\<open>ensureMedia\<close> after that finds the stream. With the camera off it makes no call of
  \<^verbatim>\<open>getUserMedia\<close> and changes nothing: the flag it sets on the audio track is set already, and
  the track stays stopped. With the camera on it asks for a stream with video and audio.
\<close>

theorem permission_then_ensureMedia:
  "mediaStreamRef (requestMicrophonePermission_resume Granted s) = Some (length (streams s))
   \<and> at (streams (requestMicrophonePermission_resume Granted s)) (length (streams s)) =
       Some [\<lparr>kind = AudioTrack, enabled = True, live = False\<rparr>]
   \<and> micOn (requestMicrophonePermission_resume Granted s)
   \<and> (\<not> cameraOn s \<longrightarrow>
        ensureMedia outcome m (requestMicrophonePermission_resume Granted s) =
          requestMicrophonePermission_resume Granted s)
   \<and> (cameraOn s \<longrightarrow>
        gum_log (ensureMedia outcome m (requestMicrophonePermission_resume Granted s)) =
          gum_log s @ [(True, True)])"
proof (intro conjI impI)
  let ?r = "requestMicrophonePermission_resume Granted s"
  let ?t = "[\<lparr>kind = AudioTrack, enabled = True, live = False\<rparr>]"
  show ref: "mediaStreamRef ?r = Some (length (streams s))"
    and tr: "at (streams ?r) (length (streams s)) = Some ?t"
    and mic: "micOn ?r"
    by (simp_all add: permission_granted at_def)
  {
    assume off: "\<not> cameraOn s"
    then have no: "\<not> (cameraOn ?r \<and> first_track VideoTrack ?t = None)"
      by (simp add: permission_granted)
    have "ensureMedia outcome m ?r =
        ?r\<lparr>streams := (streams ?r)
             [length (streams s) := set_first_enabled AudioTrack (micOn ?r)
                (set_first_enabled VideoTrack (cameraOn ?r) ?t)]\<rparr>"
      using ref tr no by (rule ensureMedia_existing)
    also have "(streams ?r)
             [length (streams s) := set_first_enabled AudioTrack (micOn ?r)
                (set_first_enabled VideoTrack (cameraOn ?r) ?t)] = streams ?r"
      by (simp add: permission_granted)
    finally show "ensureMedia outcome m ?r = ?r"
      by simp
  }
  {
    assume "cameraOn s"
    then show "gum_log (ensureMedia outcome m ?r) = gum_log s @ [(True, True)]"
      by (simp add: permission_granted ensureMedia_def ensureMedia_start_def
            ensureMedia_resume_def Let_def getUserMedia_def new_stream_def stop_tracks_def
            alert_def at_def split: gum_outcome.splits)
  }
qed

theorem permission_then_ensureMedia_witness:
  "\<not> cameraOn mounted_ana
   \<and> mediaStreamRef after_permission = Some 0
   \<and> at (streams after_permission) 0 = Some [\<lparr>kind = AudioTrack, enabled = True, live = False\<rparr>]
   \<and> ensureMedia Granted True after_permission = after_permission
   \<and> cameraOn (toggleCamera mounted_ana)
   \<and> gum_log (ensureMedia Granted True
                 (requestMicrophonePermission_resume Granted (toggleCamera mounted_ana))) =
       [(True, True)]"
  using permission_then_ensureMedia [of mounted_ana Granted True]
    permission_then_ensureMedia [of "toggleCamera mounted_ana" Granted True]
  by (simp add: after_permission_def mounted_ana_media mounted_ana_peer toggleCamera_def)

text \<open>
  The claim as the specification states it fails with the camera on: the run that follows the
  granted request has the microphone on, and it calls \<^verbatim>\<open>getUserMedia\<close> again and stores a
  stream whose audio track is live.
\<close>

theorem permission_then_ensureMedia_counterexample:
  "micOn camera_permission
   \<and> gum_log camera_permission = [(False, True)]
   \<and> gum_log (ensureMedia Granted True camera_permission) = [(False, True), (True, True)]
   \<and> mediaStreamRef (ensureMedia Granted True camera_permission) = Some 1
   \<and> streams (ensureMedia Granted True camera_permission) ! 1 =
       [\<lparr>kind = AudioTrack, enabled = True, live = True\<rparr>,
        \<lparr>kind = VideoTrack, enabled = True, live = True\<rparr>]"
  by (simp add: camera_permission_def permission_granted requestMicrophonePermission_start_def
        toggleCamera_def mounted_ana_media mounted_ana_peer mounted_ana_chat ascii_def
        ensureMedia_def ensureMedia_start_def ensureMedia_resume_def Let_def getUserMedia_def
        new_stream_def stop_tracks_def at_def)

subsection \<open>Hanging up\<close>

lemma lib_frame_session:
  "user (alert m s) = user s"
  "meetingId (alert m s) = meetingId s"
  "voiceSocket (alert m s) = voiceSocket s"
  "messages (alert m s) = messages s"
  "user (navigate pa s) = user s"
  "meetingId (navigate pa s) = meetingId s"
  "voiceSocket (navigate pa s) = voiceSocket s"
  "messages (navigate pa s) = messages s"
  "user (emit_chat ce s) = user s"
  "meetingId (emit_chat ce s) = meetingId s"
  "voiceSocket (emit_chat ce s) = voiceSocket s"
  "messages (emit_chat ce s) = messages s"
  "user (emit_voice ve s) = user s"
  "meetingId (emit_voice ve s) = meetingId s"
  "voiceSocket (emit_voice ve s) = voiceSocket s"
  "messages (emit_voice ve s) = messages s"
  "user (fetch hc s) = user s"
  "meetingId (fetch hc s) = meetingId s"
  "voiceSocket (fetch hc s) = voiceSocket s"
  "messages (fetch hc s) = messages s"
  "user (new_Peer i s) = user s"
  "meetingId (new_Peer i s) = meetingId s"
  "voiceSocket (new_Peer i s) = voiceSocket s"
  "messages (new_Peer i s) = messages s"
  "user (peer_destroy p s) = user s"
  "meetingId (peer_destroy p s) = meetingId s"
  "voiceSocket (peer_destroy p s) = voiceSocket s"
  "messages (peer_destroy p s) = messages s"
  "user (call_close c s) = user s"
  "meetingId (call_close c s) = meetingId s"
  "voiceSocket (call_close c s) = voiceSocket s"
  "messages (call_close c s) = messages s"
  "user (call_answer c st s) = user s"
  "meetingId (call_answer c st s) = meetingId s"
  "voiceSocket (call_answer c st s) = voiceSocket s"
  "messages (call_answer c st s) = messages s"
  "user (new_stream gc s) = user s"
  "meetingId (new_stream gc s) = meetingId s"
  "voiceSocket (new_stream gc s) = voiceSocket s"
  "messages (new_stream gc s) = messages s"
  "user (stop_tracks st s) = user s"
  "meetingId (stop_tracks st s) = meetingId s"
  "voiceSocket (stop_tracks st s) = voiceSocket s"
  "messages (stop_tracks st s) = messages s"
  "user (getUserMedia gc s) = user s"
  "meetingId (getUserMedia gc s) = meetingId s"
  "voiceSocket (getUserMedia gc s) = voiceSocket s"
  "messages (getUserMedia gc s) = messages s"
  "user (setTimeout task ms s) = user s"
  "meetingId (setTimeout task ms s) = meetingId s"
  "voiceSocket (setTimeout task ms s) = voiceSocket s"
  "messages (setTimeout task ms s) = messages s"
  "user (clearTimeout h s) = user s"
  "meetingId (clearTimeout h s) = meetingId s"
  "voiceSocket (clearTimeout h s) = voiceSocket s"
  "messages (clearTimeout h s) = messages s"
  by (simp_all add: lib_defs split: option.splits)

lemma close_all_calls_session:
  "user (close_all_calls s) = user s"
  "meetingId (close_all_calls s) = meetingId s"
  "voiceSocket (close_all_calls s) = voiceSocket s"
  "messages (close_all_calls s) = messages s"
  by (simp_all add: close_all_calls_def fold_frame lib_frame_session)

lemma main_event_session:
  "user (main_event e s) = user s"
  "meetingId (main_event e s) = meetingId s"
  "voiceSocket (main_event e s) = voiceSocket s"
  by (cases e; simp add: main_event_def handler_defs lib_frame_session Let_def
        split: option.splits)+

lemma main_event_messages:
  "messages (main_event e s) = messages s
   \<or> (\<exists>a t. e = ReceiveMessage a t
         \<and> messages (main_event e s) =
             messages s @ [\<lparr>msg_id = length (messages s) + 1, author = a, body = t\<rparr>])"
  by (cases e; simp add: main_event_def handler_defs lib_frame_session Let_def
        split: option.splits)

lemma media_session:
  "user (fst (ensureMedia_start s)) = user s"
  "meetingId (fst (ensureMedia_start s)) = meetingId s"
  "voiceSocket (fst (ensureMedia_start s)) = voiceSocket s"
  "messages (fst (ensureMedia_start s)) = messages s"
  "user (ensureMedia_resume k outcome m s) = user s"
  "meetingId (ensureMedia_resume k outcome m s) = meetingId s"
  "voiceSocket (ensureMedia_resume k outcome m s) = voiceSocket s"
  "messages (ensureMedia_resume k outcome m s) = messages s"
  "user (requestMicrophonePermission_resume outcome s) = user s"
  "meetingId (requestMicrophonePermission_resume outcome s) = meetingId s"
  "voiceSocket (requestMicrophonePermission_resume outcome s) = voiceSocket s"
  "messages (requestMicrophonePermission_resume outcome s) = messages s"
  by (simp_all add: ensureMedia_start_def ensureMedia_resume_def
        requestMicrophonePermission_resume_def Let_def lib_frame_session
        split: option.splits gum_outcome.splits gum_cont.splits)

lemma media_effect_session:
  "user (fst (media_effect s)) = user s"
  "meetingId (fst (media_effect s)) = meetingId s"
  "voiceSocket (fst (media_effect s)) = voiceSocket s"
  "messages (fst (media_effect s)) = messages s"
  by (simp_all add: media_effect_def Let_def media_session close_all_calls_session
        join_voice_room_def lib_frame_session split: option.splits)

lemma controls_session:
  "user (sendMessage s) = user s"
  "meetingId (sendMessage s) = meetingId s"
  "voiceSocket (sendMessage s) = voiceSocket s"
  "user (hangup b s) = user s"
  "meetingId (hangup b s) = meetingId s"
  "voiceSocket (hangup b s) = voiceSocket s"
  "messages (hangup b s) = messages s"
  by (simp_all add: sendMessage_def hangup_def Let_def lib_frame_session split: option.splits)

lemma sendMessage_messages:
  "messages (sendMessage s) = messages s
   \<or> messages (sendMessage s) =
       messages s @ [\<lparr>msg_id = length (messages s) + 1, author = str_Tu,
                      body = trim (chatInput s)\<rparr>]"
  by (simp add: sendMessage_def Let_def lib_frame_session)

lemma unmount_session:
  "user (unmount s) = user s"
  "meetingId (unmount s) = meetingId s"
  "voiceSocket (unmount s) = voiceSocket s"
  "messages (unmount s) = messages s"
  by (simp_all add: unmount_def unmount_cleanup_def main_cleanup_def Let_def
        close_all_calls_session lib_frame_session split: option.splits)

lemma call_peer_cb_session:
  "user (call_peer_cb r s) = user s"
  "meetingId (call_peer_cb r s) = meetingId s"
  "voiceSocket (call_peer_cb r s) = voiceSocket s"
  "messages (call_peer_cb r s) = messages s"
  by (simp_all add: call_peer_cb_def initiateCall_def peer_call_def split: option.splits)

lemma run_task_session:
  "user (run_task task s) = user s"
  "meetingId (run_task task s) = meetingId s"
  "voiceSocket (run_task task s) = voiceSocket s"
  "messages (run_task task s) = messages s"
  by (cases task;
      simp add: run_task_def connection_timeout_cb_def replace_peer_def reconnect_cb_def
        join_voice_room_def call_peers_cb_def fold_frame call_peer_cb_session
        lib_frame_session peer_reconnect_def split: option.splits)+

lemma run_timers_session:
  "user (run_timers limit s) = user s \<and> meetingId (run_timers limit s) = meetingId s
   \<and> voiceSocket (run_timers limit s) = voiceSocket s
   \<and> messages (run_timers limit s) = messages s"
proof (induction limit s rule: run_timers.induct)
  case (1 limit s)
  show ?case
  proof (cases "next_due (timers s) limit")
    case None
    then show ?thesis by (simp add: run_timers.simps [of limit s])
  next
    case (Some t)
    then show ?thesis
      using "1.IH" [OF Some] by (simp add: run_timers.simps [of limit s] run_task_session)
  qed
qed

text \<open>No event changes the user, the meeting id or the \<^verbatim>\<open>voiceSocket\<close> variable.\<close>

lemma step_session:
  "user (step e s) = user s"
  "meetingId (step e s) = meetingId s"
  "voiceSocket (step e s) = voiceSocket s"
  by (cases e;
      simp add: step_def main_event_session advance_def run_timers_session media_session
        media_effect_session controls_session unmount_session toggleChat_def toggleCamera_def
        toggleMic_def)+

lemma run_session:
  "user (run es s) = user s \<and> meetingId (run es s) = meetingId s
   \<and> voiceSocket (run es s) = voiceSocket s"
  by (induction es arbitrary: s) (simp_all add: step_session)

text \<open>The transcript only grows: no event removes a message.\<close>

lemma step_messages: "\<exists>ms. messages (step e s) = messages s @ ms"
proof (cases e)
  case SubmitChat
  then show ?thesis
    using sendMessage_messages [of s] by (auto simp add: step_def)
qed (use main_event_messages [of e s] in
      \<open>auto simp add: step_def advance_def run_timers_session media_session
         media_effect_session controls_session unmount_session toggleChat_def
         toggleCamera_def toggleMic_def\<close>)

lemma run_messages: "\<exists>ms. messages (run es s) = messages s @ ms"
proof (induction es arbitrary: s)
  case Nil
  then show ?case by simp
next
  case (Cons e es)
  obtain ms1 where 1: "messages (step e s) = messages s @ ms1"
    using step_messages by blast
  obtain ms2 where 2: "messages (run es (step e s)) = messages (step e s) @ ms2"
    using Cons.IH by blast
  show ?case
    using 1 2 by simp
qed

lemma mounted_session_fields:
  assumes "mid \<noteq> []" and "tok \<noteq> []"
  shows "voiceSocket (mounted mid tok u t0)"
    and "messages (mounted mid tok u t0) = initial_messages"
  using assms
  by (simp_all add: mounted_def main_effect_def initial_def Let_def fetch_def setTimeout_def
        new_Peer_def)

text \<open>
  Claim C3. In a session, that is after the main effect ran and whatever events followed, a
  hangup by a participant who is not the creator makes no request, emits nothing on the chat
  socket, emits \<^verbatim>\<open>leave-voice-room\<close> once, empties the roster and navigates to the landing
  page. It does not clear the transcript, which the docstring of \<^verbatim>\<open>hangup\<close> says it does
  (\<^verbatim>\<open>clears participants and chat\<close>): the messages after the hangup are the messages before
  it, and they are never none, since the transcript starts with the welcome message and no
  event removes a message.
\<close>

theorem hangup_in_session:
  "mid \<noteq> [] \<and> tok \<noteq> [] \<and> \<not> isCreator (run es (mounted mid tok u t0)) \<longrightarrow>
     http_log (hangup put_ok (run es (mounted mid tok u t0))) =
       http_log (run es (mounted mid tok u t0))
     \<and> chat_out (hangup put_ok (run es (mounted mid tok u t0))) =
         chat_out (run es (mounted mid tok u t0))
     \<and> voice_out (hangup put_ok (run es (mounted mid tok u t0))) =
         voice_out (run es (mounted mid tok u t0)) @ [LeaveVoiceRoom (Some mid) (user_id u)]
     \<and> participants (hangup put_ok (run es (mounted mid tok u t0))) = []
     \<and> navigations (hangup put_ok (run es (mounted mid tok u t0))) =
         navigations (run es (mounted mid tok u t0)) @ [str_realtime]
     \<and> messages (hangup put_ok (run es (mounted mid tok u t0))) =
         messages (run es (mounted mid tok u t0))
     \<and> messages (hangup put_ok (run es (mounted mid tok u t0))) \<noteq> []"
proof (intro impI)
  assume a: "mid \<noteq> [] \<and> tok \<noteq> [] \<and> \<not> isCreator (run es (mounted mid tok u t0))"
  let ?m = "mounted mid tok u t0"
  let ?s = "run es ?m"
  have us: "user ?s = Some u" and me: "meetingId ?s = Some mid" and vs: "voiceSocket ?s"
    using a run_session [of es ?m]
    by (simp_all add: mounted_fields mounted_join_fields mounted_session_fields)
  obtain ms where "messages ?s = messages ?m @ ms"
    using run_messages by blast
  then have ne: "messages ?s \<noteq> []"
    using a by (simp add: mounted_session_fields initial_messages_def)
  have nc: "\<not> isCreator ?s"
    using a by simp
  show "http_log (hangup put_ok ?s) = http_log ?s
     \<and> chat_out (hangup put_ok ?s) = chat_out ?s
     \<and> voice_out (hangup put_ok ?s) = voice_out ?s @ [LeaveVoiceRoom (Some mid) (user_id u)]
     \<and> participants (hangup put_ok ?s) = []
     \<and> navigations (hangup put_ok ?s) = navigations ?s @ [str_realtime]
     \<and> messages (hangup put_ok ?s) = messages ?s
     \<and> messages (hangup put_ok ?s) \<noteq> []"
    using us me vs ne nc
    by (simp add: hangup_def Let_def emit_voice_def navigate_def)
qed

theorem hangup_in_session_witness:
  "ascii ''m1'' \<noteq> [] \<and> ascii ''tok'' \<noteq> []
   \<and> \<not> isCreator (run [ReceiveMessage (ascii ''Bo'') (ascii ''hola'')]
                      (mounted (ascii ''m1'') (ascii ''tok'') ana 0))
   \<and> voice_out (hangup False (run [ReceiveMessage (ascii ''Bo'') (ascii ''hola'')]
                                 (mounted (ascii ''m1'') (ascii ''tok'') ana 0))) =
       [LeaveVoiceRoom (Some (ascii ''m1'')) (ascii ''u1'')]
   \<and> participants (hangup False (run [ReceiveMessage (ascii ''Bo'') (ascii ''hola'')]
                                    (mounted (ascii ''m1'') (ascii ''tok'') ana 0))) = []
   \<and> messages (hangup False (run [ReceiveMessage (ascii ''Bo'') (ascii ''hola'')]
                                (mounted (ascii ''m1'') (ascii ''tok'') ana 0))) =
       [\<lparr>msg_id = 1, author = str_Sistema, body = str_welcome\<rparr>,
        \<lparr>msg_id = 2, author = ascii ''Bo'', body = ascii ''hola''\<rparr>]"
proof -
  let ?s = "run [ReceiveMessage (ascii ''Bo'') (ascii ''hola'')]
              (mounted (ascii ''m1'') (ascii ''tok'') ana 0)"
  have s: "?s = on_receive_message (ascii ''Bo'', ascii ''hola'') mounted_ana"
    by (simp add: mounted_ana_eq [symmetric] step_def main_event_def mounted_ana_peer)
  have h: "ascii ''m1'' \<noteq> [] \<and> ascii ''tok'' \<noteq> [] \<and> \<not> isCreator ?s"
    unfolding s by (simp add: on_receive_message_def mounted_ana_voice ascii_def)
  have v: "voice_out ?s = []" and m: "messages ?s =
      [\<lparr>msg_id = 1, author = str_Sistema, body = str_welcome\<rparr>,
       \<lparr>msg_id = 2, author = ascii ''Bo'', body = ascii ''hola''\<rparr>]"
    unfolding s
    by (simp_all add: on_receive_message_def mounted_ana_voice mounted_ana_chat
          initial_messages_def)
  have u: "user_id ana = ascii ''u1''"
    by (simp add: ana_def)
  have t: "voice_out (hangup False ?s) = voice_out ?s @ [LeaveVoiceRoom (Some (ascii ''m1'')) (user_id ana)]
      \<and> participants (hangup False ?s) = []
      \<and> messages (hangup False ?s) = messages ?s"
    using h hangup_in_session [where mid = "ascii ''m1''" and tok = "ascii ''tok''" and u = ana
        and ?t0.0 = 0 and es = "[ReceiveMessage (ascii ''Bo'') (ascii ''hola'')]"
        and put_ok = False]
    by blast
  show ?thesis
    using h t by (simp only: v m u append_Nil simp_thms)
qed

subsection \<open>Runs of \<^verbatim>\<open>ensureMedia\<close> one after the other\<close>

text \<open>
  What the assignments to \<^verbatim>\<open>enabled\<close> do to the track at a position: the first track of
  the kind gets the flag, every other track stays as it is.
\<close>

lemma set_first_enabled_nth:
  "i < length ts \<Longrightarrow>
   set_first_enabled k b ts ! i =
     (if kind (ts ! i) = k \<and> k \<notin> set (map kind (take i ts)) then (ts ! i)\<lparr>enabled := b\<rparr>
      else ts ! i)"
proof (induction ts arbitrary: i)
  case Nil
  then show ?case by simp
next
  case (Cons t ts)
  show ?case
  proof (cases i)
    case 0
    then show ?thesis by simp
  next
    case (Suc j)
    then have "j < length ts"
      using Cons.prems by simp
    then show ?thesis
      using Cons.IH [of j] Suc by simp
  qed
qed

lemma both_flags_nth:
  assumes "i < length ts"
  shows "set_first_enabled AudioTrack b (set_first_enabled VideoTrack v ts) ! i =
           (if kind (ts ! i) \<notin> set (map kind (take i ts))
            then (ts ! i)\<lparr>enabled := (case kind (ts ! i) of AudioTrack \<Rightarrow> b | VideoTrack \<Rightarrow> v)\<rparr>
            else ts ! i)"
proof -
  let ?ts1 = "set_first_enabled VideoTrack v ts"
  have len: "i < length ?ts1"
    using assms by (simp add: set_first_enabled_shape)
  have kinds: "map kind (take i ?ts1) = map kind (take i ts)"
    by (simp add: take_map [symmetric] set_first_enabled_shape)
  have inner: "?ts1 ! i =
      (if kind (ts ! i) = VideoTrack \<and> VideoTrack \<notin> set (map kind (take i ts))
       then (ts ! i)\<lparr>enabled := v\<rparr> else ts ! i)"
    using assms by (rule set_first_enabled_nth)
  have "set_first_enabled AudioTrack b ?ts1 ! i =
      (if kind (?ts1 ! i) = AudioTrack \<and> AudioTrack \<notin> set (map kind (take i ?ts1))
       then (?ts1 ! i)\<lparr>enabled := b\<rparr> else ?ts1 ! i)"
    using len by (rule set_first_enabled_nth)
  then show ?thesis
    unfolding kinds inner
    by (cases "kind (ts ! i)") auto
qed

text \<open>
  Claim C6, as the code has it. Without a stream, with the camera off and the microphone on:
  a run of \<^verbatim>\<open>ensureMedia\<close> that is granted while its effect is still mounted calls
  \<^verbatim>\<open>getUserMedia\<close> once and stores the stream, and a run after that calls nothing and changes
  nothing; but a run that starts before the request of the run before it is answered, or after
  a run whose request was answered when its effect was no longer mounted, finds no stream and
  calls \<^verbatim>\<open>getUserMedia\<close> again, two calls in all. With a stream, unless the camera is on and
  the stream has no video track, turning the microphone off and on again makes no call of
  \<^verbatim>\<open>getUserMedia\<close>, keeps the stream and changes nothing but \<^verbatim>\<open>enabled\<close> flags: the first
  audio track's becomes false and then true, the first video track's becomes the state of the
  camera, and every other track stays as it is. When the camera is on and the stream has no
  video track, the run asks for a stream with video.
\<close>

theorem ensureMedia_repeated:
  "(mediaStreamRef s = None \<and> \<not> cameraOn s \<and> micOn s \<longrightarrow>
      gum_log (ensureMedia Granted True s) = gum_log s @ [(False, True)]
      \<and> ensureMedia o2 m2 (ensureMedia Granted True s) = ensureMedia Granted True s
      \<and> gum_log (fst (ensureMedia_start (fst (ensureMedia_start s)))) =
          gum_log s @ [(False, True), (False, True)]
      \<and> gum_log (ensureMedia o2 m2 (ensureMedia Granted False s)) =
          gum_log s @ [(False, True), (False, True)])
   \<and> (mediaStreamRef s = Some cur \<and> at (streams s) cur = Some ts \<and> micOn s
        \<and> \<not> (cameraOn s \<and> first_track VideoTrack ts = None) \<and> i < length ts \<longrightarrow>
        gum_log (ensureMedia o1 m1 (toggleMic s)) = gum_log s
        \<and> gum_log (mic_off_on o1 m1 o2 m2 s) = gum_log s
        \<and> mediaStreamRef (mic_off_on o1 m1 o2 m2 s) = Some cur
        \<and> mic_off_on o1 m1 o2 m2 s =
            s\<lparr>streams := (streams s)[cur := streams (mic_off_on o1 m1 o2 m2 s) ! cur]\<rparr>
        \<and> length (streams (mic_off_on o1 m1 o2 m2 s) ! cur) = length ts
        \<and> streams (ensureMedia o1 m1 (toggleMic s)) ! cur ! i =
            (if kind (ts ! i) \<notin> set (map kind (take i ts))
             then (ts ! i)\<lparr>enabled :=
                    (case kind (ts ! i) of AudioTrack \<Rightarrow> False | VideoTrack \<Rightarrow> cameraOn s)\<rparr>
             else ts ! i)
        \<and> streams (mic_off_on o1 m1 o2 m2 s) ! cur ! i =
            (if kind (ts ! i) \<notin> set (map kind (take i ts))
             then (ts ! i)\<lparr>enabled :=
                    (case kind (ts ! i) of AudioTrack \<Rightarrow> True | VideoTrack \<Rightarrow> cameraOn s)\<rparr>
             else ts ! i))
   \<and> (mediaStreamRef s = Some cur \<and> at (streams s) cur = Some ts
        \<and> cameraOn s \<and> first_track VideoTrack ts = None \<longrightarrow>
        gum_log (ensureMedia o1 m1 s) = gum_log s @ [(True, micOn s)])"
proof (intro conjI impI)
  assume a: "mediaStreamRef s = None \<and> \<not> cameraOn s \<and> micOn s"
  let ?s1 = "ensureMedia Granted True s"
  have s1: "?s1 =
      s\<lparr>gum_log := gum_log s @ [(False, True)],
        streams := streams s @ [[\<lparr>kind = AudioTrack, enabled = True, live = True\<rparr>]],
        mediaStreamRef := Some (length (streams s))\<rparr>"
    using a ensureMedia_fresh [of s] by simp
  show "gum_log ?s1 = gum_log s @ [(False, True)]"
    by (simp add: s1)
  have ref: "mediaStreamRef ?s1 = Some (length (streams s))"
    and tr: "at (streams ?s1) (length (streams s)) =
               Some [\<lparr>kind = AudioTrack, enabled = True, live = True\<rparr>]"
    and fl: "\<not> (cameraOn ?s1 \<and>
                first_track VideoTrack [\<lparr>kind = AudioTrack, enabled = True, live = True\<rparr>] = None)"
    and mic: "micOn ?s1" "\<not> cameraOn ?s1"
    using a by (simp_all add: s1 at_def)
  have "ensureMedia o2 m2 ?s1 =
      ?s1\<lparr>streams := (streams ?s1)
            [length (streams s) := set_first_enabled AudioTrack (micOn ?s1)
               (set_first_enabled VideoTrack (cameraOn ?s1)
                  [\<lparr>kind = AudioTrack, enabled = True, live = True\<rparr>])]\<rparr>"
    using ref tr fl by (rule ensureMedia_existing)
  also have "(streams ?s1)
            [length (streams s) := set_first_enabled AudioTrack (micOn ?s1)
               (set_first_enabled VideoTrack (cameraOn ?s1)
                  [\<lparr>kind = AudioTrack, enabled = True, live = True\<rparr>])] = streams ?s1"
    using mic by (simp add: s1)
  finally show "ensureMedia o2 m2 ?s1 = ?s1"
    by simp
  show "gum_log (fst (ensureMedia_start (fst (ensureMedia_start s)))) =
      gum_log s @ [(False, True), (False, True)]"
    using a by (simp add: ensureMedia_start_def Let_def getUserMedia_def)
  have lost: "ensureMedia Granted False s =
      s\<lparr>gum_log := gum_log s @ [(False, True)],
        streams := streams s @ [[\<lparr>kind = AudioTrack, enabled = True, live = False\<rparr>]]\<rparr>"
    using a
    by (simp add: ensureMedia_def ensureMedia_start_def ensureMedia_resume_def Let_def
          getUserMedia_def new_stream_def stop_tracks_def at_def)
  show "gum_log (ensureMedia o2 m2 (ensureMedia Granted False s)) =
      gum_log s @ [(False, True), (False, True)]"
    unfolding lost
    using a
    by (simp add: ensureMedia_def ensureMedia_start_def ensureMedia_resume_def Let_def
          getUserMedia_def new_stream_def stop_tracks_def alert_def at_def
          split: gum_outcome.splits)
next
  assume a: "mediaStreamRef s = Some cur \<and> at (streams s) cur = Some ts \<and> micOn s
        \<and> \<not> (cameraOn s \<and> first_track VideoTrack ts = None) \<and> i < length ts"
  let ?v = "cameraOn s"
  let ?off = "toggleMic s"
  let ?T = "\<lambda>b. set_first_enabled AudioTrack b (set_first_enabled VideoTrack ?v ts)"
  have cur: "cur < length (streams s)" and ts: "streams s ! cur = ts"
    using a by (auto simp add: at_def split: if_splits)
  have off1: "ensureMedia o1 m1 ?off =
      ?off\<lparr>streams := (streams ?off)
             [cur := set_first_enabled AudioTrack (micOn ?off)
                       (set_first_enabled VideoTrack (cameraOn ?off) ts)]\<rparr>"
    using a by (intro ensureMedia_existing) (simp_all add: toggleMic_def)
  define s1 where "s1 = ensureMedia o1 m1 ?off"
  have s1: "s1 = s\<lparr>micOn := False, streams := (streams s)[cur := ?T False]\<rparr>"
    using a unfolding s1_def off1 by (simp add: toggleMic_def)
  let ?on = "toggleMic s1"
  have on1: "ensureMedia o2 m2 ?on =
      ?on\<lparr>streams := (streams ?on)
            [cur := set_first_enabled AudioTrack (micOn ?on)
                      (set_first_enabled VideoTrack (cameraOn ?on) (?T False))]\<rparr>"
  proof (rule ensureMedia_existing)
    show "mediaStreamRef ?on = Some cur"
      using a by (simp add: s1 toggleMic_def)
    show "at (streams ?on) cur = Some (?T False)"
      using cur by (simp add: s1 toggleMic_def at_def)
    show "\<not> (cameraOn ?on \<and> first_track VideoTrack (?T False) = None)"
      using a by (simp add: s1 toggleMic_def first_track_set_first_enabled)
  qed
  have tracks: "set_first_enabled AudioTrack True (set_first_enabled VideoTrack ?v (?T False)) =
      ?T True"
    by (simp add: set_first_enabled_swap [of VideoTrack AudioTrack] set_first_enabled_twice)
  have res: "mic_off_on o1 m1 o2 m2 s = s\<lparr>streams := (streams s)[cur := ?T True]\<rparr>"
    unfolding mic_off_on_def s1_def [symmetric] on1
    using a by (simp add: s1 toggleMic_def tracks)
  have at_on: "streams (mic_off_on o1 m1 o2 m2 s) ! cur = ?T True"
    using cur by (simp add: res)
  have at_off: "streams (ensureMedia o1 m1 (toggleMic s)) ! cur = ?T False"
    using cur by (simp add: s1_def [symmetric] s1)
  show "gum_log (ensureMedia o1 m1 (toggleMic s)) = gum_log s"
    by (simp add: s1_def [symmetric] s1)
  show "gum_log (mic_off_on o1 m1 o2 m2 s) = gum_log s"
    by (simp add: res)
  show "mediaStreamRef (mic_off_on o1 m1 o2 m2 s) = Some cur"
    using a by (simp add: res)
  show "mic_off_on o1 m1 o2 m2 s =
      s\<lparr>streams := (streams s)[cur := streams (mic_off_on o1 m1 o2 m2 s) ! cur]\<rparr>"
    unfolding at_on by (rule res)
  show "length (streams (mic_off_on o1 m1 o2 m2 s) ! cur) = length ts"
    unfolding at_on by (simp add: set_first_enabled_shape)
  have i: "i < length ts"
    using a by simp
  show "streams (ensureMedia o1 m1 (toggleMic s)) ! cur ! i =
      (if kind (ts ! i) \<notin> set (map kind (take i ts))
       then (ts ! i)\<lparr>enabled :=
              (case kind (ts ! i) of AudioTrack \<Rightarrow> False | VideoTrack \<Rightarrow> cameraOn s)\<rparr>
       else ts ! i)"
    unfolding at_off using i by (rule both_flags_nth)
  show "streams (mic_off_on o1 m1 o2 m2 s) ! cur ! i =
      (if kind (ts ! i) \<notin> set (map kind (take i ts))
       then (ts ! i)\<lparr>enabled :=
              (case kind (ts ! i) of AudioTrack \<Rightarrow> True | VideoTrack \<Rightarrow> cameraOn s)\<rparr>
       else ts ! i)"
    unfolding at_on using i by (rule both_flags_nth)
next
  assume a: "mediaStreamRef s = Some cur \<and> at (streams s) cur = Some ts
        \<and> cameraOn s \<and> first_track VideoTrack ts = None"
  then show "gum_log (ensureMedia o1 m1 s) = gum_log s @ [(True, micOn s)]"
    by (simp add: ensureMedia_def ensureMedia_start_def ensureMedia_resume_def Let_def
          getUserMedia_def new_stream_def stop_tracks_def alert_def
          split: gum_outcome.splits option.splits)
qed

theorem ensureMedia_repeated_witness:
  "mediaStreamRef mounted_ana = None \<and> \<not> cameraOn mounted_ana \<and> micOn mounted_ana
   \<and> gum_log (ensureMedia Granted True mounted_ana) = [(False, True)]
   \<and> ensureMedia Granted True (ensureMedia Granted True mounted_ana) =
       ensureMedia Granted True mounted_ana
   \<and> gum_log (ensureMedia Granted True (ensureMedia Granted False mounted_ana)) =
       [(False, True), (False, True)]
   \<and> mediaStreamRef with_stream = Some 0
   \<and> at (streams with_stream) 0 = Some [\<lparr>kind = AudioTrack, enabled = True, live = True\<rparr>]
   \<and> micOn with_stream
   \<and> \<not> (cameraOn with_stream
          \<and> first_track VideoTrack [\<lparr>kind = AudioTrack, enabled = True, live = True\<rparr>] = None)
   \<and> gum_log (mic_off_on Granted True Granted True with_stream) = []
   \<and> streams (ensureMedia Granted True (toggleMic with_stream)) ! 0 ! 0 =
       \<lparr>kind = AudioTrack, enabled = False, live = True\<rparr>
   \<and> streams (mic_off_on Granted True Granted True with_stream) ! 0 ! 0 =
       \<lparr>kind = AudioTrack, enabled = True, live = True\<rparr>
   \<and> cameraOn (toggleCamera with_stream)
   \<and> gum_log (ensureMedia Granted True (toggleCamera with_stream)) = [(True, True)]"
proof -
  let ?a = "[\<lparr>kind = AudioTrack, enabled = True, live = True\<rparr>]"
  have h1: "mediaStreamRef mounted_ana = None \<and> \<not> cameraOn mounted_ana \<and> micOn mounted_ana"
    by (simp add: mounted_ana_peer mounted_ana_media)
  have h2: "mediaStreamRef with_stream = Some 0 \<and> at (streams with_stream) 0 = Some ?a
      \<and> micOn with_stream \<and> \<not> (cameraOn with_stream \<and> first_track VideoTrack ?a = None)
      \<and> (0::nat) < length ?a"
    by (simp add: with_stream_fields with_stream_media at_def)
  have h3: "mediaStreamRef (toggleCamera with_stream) = Some 0
      \<and> at (streams (toggleCamera with_stream)) 0 = Some ?a
      \<and> cameraOn (toggleCamera with_stream) \<and> first_track VideoTrack ?a = None"
    by (simp add: toggleCamera_def with_stream_fields with_stream_media at_def)
  show ?thesis
    using h1 h2 h3
      ensureMedia_repeated [where s = mounted_ana and ?o2.0 = Granted and ?m2.0 = True]
      ensureMedia_repeated [where s = with_stream and cur = 0 and ts = ?a and i = 0
        and ?o1.0 = Granted and ?m1.0 = True and ?o2.0 = Granted and ?m2.0 = True]
      ensureMedia_repeated [where s = "toggleCamera with_stream" and cur = 0 and ts = ?a
        and ?o1.0 = Granted and ?m1.0 = True]
    by (simp add: mounted_ana_media with_stream_media toggleCamera_def)
qed

text \<open>
  The claim as the specification states it fails: when the media effect runs twice in a row,
  the second run starting before the request of the first is answered, each run calls
  \<^verbatim>\<open>getUserMedia\<close> with no video and with audio; so does a run that follows one whose stream
  was granted after its effect was cleaned up. No request was refused.
\<close>

theorem ensureMedia_repeated_counterexample:
  "gum_log mounted_ana = []
   \<and> gum_log (fst (media_effect (fst (media_effect mounted_ana)))) =
       [(False, True), (False, True)]
   \<and> gum_log (ensureMedia Granted True (ensureMedia Granted False mounted_ana)) =
       [(False, True), (False, True)]"
proof -
  have start: "fst (ensureMedia_start mounted_ana) = getUserMedia (False, True) mounted_ana"
    by (simp add: ensureMedia_start_def Let_def mounted_ana_media mounted_ana_peer)
  have eff: "gum_log (fst (media_effect s)) = gum_log (fst (ensureMedia_start s))" for s
    by (simp add: media_effect_def Let_def join_voice_room_def emit_voice_def
          close_all_calls_def fold_frame call_close_def split: option.splits)
  have keep: "mediaStreamRef (fst (media_effect s)) = mediaStreamRef s
      \<and> micOn (fst (media_effect s)) = micOn s \<and> cameraOn (fst (media_effect s)) = cameraOn s" for s
    by (simp add: media_effect_def Let_def join_voice_room_def emit_voice_def
          close_all_calls_def fold_frame call_close_def ensureMedia_start_def getUserMedia_def
          split: option.splits)
  have one: "gum_log (fst (media_effect mounted_ana)) = [(False, True)]"
    by (simp add: eff start getUserMedia_def mounted_ana_media)
  have two: "gum_log (fst (media_effect (fst (media_effect mounted_ana)))) =
      [(False, True), (False, True)]"
    using keep [of mounted_ana] one
    by (simp add: eff ensureMedia_start_def Let_def getUserMedia_def mounted_ana_media
          mounted_ana_peer)
  have three: "gum_log (ensureMedia Granted True (ensureMedia Granted False mounted_ana)) =
      [(False, True), (False, True)]"
    by (simp add: ensureMedia_def ensureMedia_start_def ensureMedia_resume_def Let_def
          getUserMedia_def new_stream_def stop_tracks_def at_def mounted_ana_media
          mounted_ana_peer)
  show ?thesis
    using two three by (simp add: mounted_ana_media)
qed

subsection \<open>What unmounting releases\<close>







end
